theory Spec2Isabelle
  imports Complex_Main "HOL-Library.AList" "HOL-Library.Sublist"
begin

section \<open>Python values\<close>

text \<open>
  A Python \<open>str\<close> is a sequence of code points, so slicing and \<open>len\<close> count code
  points. The ASCII literals of the source are written \<open>u ''...''\<close>; the Chinese
  literals are given by their code points.
\<close>

type_synonym pystr = "nat list"

definition u :: "string \<Rightarrow> pystr" where
  "u s = map of_char s"

text \<open>
  The values \<open>json.loads\<close> produces. A dict is an association list in insertion
  order whose first binding of a key is the dict's value for it. A float is
  represented by the decimal it is written as: the modelled code compares floats
  with zero and formats them, and does no arithmetic on them.
\<close>

datatype json =
    JNull
  | JBool bool
  | JInt int
  | JFloat real
  | JStr pystr
  | JList "json list"
  | JDict "(pystr \<times> json) list"

text \<open>The exceptions that leave a node uncaught.\<close>

datatype py_error = AttributeError | TypeError | ValueError | OracleError | OSError

text \<open>\<open>bool(v)\<close>, as \<open>if v:\<close> and \<open>not v\<close> evaluate it.\<close>

fun truthy :: "json \<Rightarrow> bool" where
  "truthy JNull = False"
| "truthy (JBool b) = b"
| "truthy (JInt n) = (n \<noteq> 0)"
| "truthy (JFloat r) = (r \<noteq> 0)"
| "truthy (JStr s) = (s \<noteq> [])"
| "truthy (JList xs) = (xs \<noteq> [])"
| "truthy (JDict d) = (d \<noteq> [])"

text \<open>Whether \<open>for part in v\<close> can iterate over the value.\<close>

fun iterable :: "json \<Rightarrow> bool" where
  "iterable (JStr s) = True"
| "iterable (JList xs) = True"
| "iterable (JDict d) = True"
| "iterable v = False"

text \<open>Whether \<open>v in TOOL_REGISTRY\<close> can hash the value.\<close>

fun hashable :: "json \<Rightarrow> bool" where
  "hashable (JList xs) = False"
| "hashable (JDict d) = False"
| "hashable v = True"

text \<open>
  The format specification \<open>:.2f\<close> applied to a value: numbers (and \<open>bool\<close>, a
  subclass of \<open>int\<close>) format, a \<open>str\<close> raises \<open>ValueError\<close>, every other value
  raises \<open>TypeError\<close>.
\<close>

fun format_2f :: "json \<Rightarrow> py_error option" where
  "format_2f (JBool b) = None"
| "format_2f (JInt n) = None"
| "format_2f (JFloat r) = None"
| "format_2f (JStr s) = Some ValueError"
| "format_2f v = Some TypeError"

text \<open>\<open>d.get(k, default)\<close> and \<open>d[k] = v\<close>.\<close>

definition dict_get :: "(pystr \<times> json) list \<Rightarrow> pystr \<Rightarrow> json \<Rightarrow> json" where
  "dict_get d k dflt = (case map_of d k of None \<Rightarrow> dflt | Some v \<Rightarrow> v)"

definition dict_set :: "(pystr \<times> json) list \<Rightarrow> pystr \<Rightarrow> json \<Rightarrow> (pystr \<times> json) list" where
  "dict_set d k v = AList.update k v d"

text \<open>
  The slice \<open>xs[:n]\<close>: the first \<open>n\<close> elements, and for a negative \<open>n\<close> all but the
  last \<open>-n\<close>.
\<close>

definition slice_to :: "'a list \<Rightarrow> int \<Rightarrow> 'a list" where
  "slice_to xs n = (if 0 \<le> n then take (nat n) xs else take (nat (int (length xs) + n)) xs)"

text \<open>\<open>sep.join(xs)\<close>.\<close>

fun join :: "pystr \<Rightarrow> pystr list \<Rightarrow> pystr" where
  "join sep [] = []"
| "join sep [x] = x"
| "join sep (x # y # ys) = x @ sep @ join sep (y # ys)"

section \<open>The run state (state.py)\<close>

record tool_call =
  tool_name :: pystr
  arguments :: json
  result :: pystr
  success :: bool

record exploration_record =
  iteration :: int
  action :: pystr
  findings :: pystr
  tool_calls :: "tool_call list"

text \<open>
  The calls a run makes to its external collaborators, in order: the oracle (by the
  prompt used) and the capability handlers (by name and argument mapping).
\<close>

datatype oracle_call = InitialDoc | UpdateDoc | Evaluate | SelectTools

datatype event = LLMCall oracle_call | ToolInvoke pystr json

text \<open>
  \<open>AgentState\<close>. The fields \<open>is_complete\<close>, \<open>missing_parts\<close> and \<open>confidence_score\<close>
  hold whatever value the evaluator's reply carried, so they are \<open>json\<close> values.
  The last field, \<open>external_calls\<close>, is not a field of the source: it is the log of
  the effects, to which every oracle call and handler invocation is appended.
\<close>

record agent_state =
  repo_path :: pystr
  config_path :: "pystr option"
  readme_content :: pystr
  directory_tree :: pystr
  project_files :: "pystr list"
  high_level_info :: pystr
  messages :: "json list"
  exploration_history :: "exploration_record list"
  current_tool_results :: pystr
  current_document :: pystr
  document_versions :: "pystr list"
  is_complete :: json
  missing_parts :: json
  confidence_score :: json
  iteration_count :: int
  max_iterations :: int
  status :: pystr
  error :: "pystr option"
  external_calls :: "event list"

definition create_initial_state :: "pystr \<Rightarrow> pystr option \<Rightarrow> int \<Rightarrow> agent_state" where
  "create_initial_state repo cpath max_iter =
     \<lparr> repo_path = repo,
       config_path = cpath,
       readme_content = [],
       directory_tree = [],
       project_files = [],
       high_level_info = [],
       messages = [],
       exploration_history = [],
       current_tool_results = [],
       current_document = [],
       document_versions = [],
       is_complete = JBool False,
       missing_parts = JList [],
       confidence_score = JFloat 0,
       iteration_count = 0,
       max_iterations = max_iter,
       status = u ''initialized'',
       error = None,
       external_calls = [] \<rparr>"

text \<open>\<open>AgentConfig\<close> of config\_loader.py: two integers, neither validated.\<close>

record config =
  cfg_max_iterations :: int
  cfg_max_tool_calls_per_iteration :: int

section \<open>The environment\<close>

text \<open>
  What the nodes obtain from outside the repository's control flow: the file
  system, the oracle, the capability handlers and the Python library. A theorem
  that holds for every environment holds whatever these return.
  \<^item> \<open>path_exists\<close> is \<open>Path(repo_path).exists()\<close>; the four functions after it
    are the texts \<open>init_node\<close> reads and assembles from the repository.
  \<^item> \<open>llm_invoke\<close> is \<open>llm.invoke\<close> with the prompt of the given kind, built from
    the given state; \<open>None\<close> is a call that raises. The reply may depend on the
    whole state, the log of earlier calls included.
  \<^item> \<open>json_loads\<close> is \<open>json.loads\<close> (\<open>None\<close> is \<open>JSONDecodeError\<close>), \<open>json_dumps\<close>
    is \<open>json.dumps\<close>, \<open>py_str\<close> is \<open>str\<close> on a value that is not a \<open>str\<close>, and
    \<open>setitem_error\<close> is the text of the \<open>TypeError\<close> that \<open>v["repo_path"] = ...\<close>
    raises on a value that is not a dict.
  \<^item> \<open>tool_invoke\<close> is \<open>TOOL_REGISTRY[name].invoke(args)\<close>: \<open>Inr\<close> the result as
    text, \<open>Inl\<close> the text of the exception raised.
  \<^item> \<open>mkdir_output\<close>, \<open>write_documents\<close> and \<open>write_report\<close> are the file
    operations of \<open>save_output_node\<close>; \<open>report_error\<close> is the text of the
    exception that building the report raises on a value.
\<close>

record env =
  path_exists :: "pystr \<Rightarrow> bool"
  read_readme :: "pystr \<Rightarrow> pystr"
  get_directory_tree :: "pystr \<Rightarrow> pystr"
  collect_project_files :: "pystr \<Rightarrow> pystr list"
  build_high_level_info :: "pystr \<Rightarrow> pystr"
  llm_invoke :: "oracle_call \<Rightarrow> agent_state \<Rightarrow> pystr option"
  json_loads :: "pystr \<Rightarrow> json option"
  json_dumps :: "json \<Rightarrow> pystr"
  py_str :: "json \<Rightarrow> pystr"
  setitem_error :: "json \<Rightarrow> pystr"
  tool_invoke :: "pystr \<Rightarrow> json \<Rightarrow> pystr + pystr"
  mkdir_output :: "agent_state \<Rightarrow> bool"
  write_documents :: "agent_state \<Rightarrow> pystr option"
  write_report :: "agent_state \<Rightarrow> pystr option"
  report_error :: "json \<Rightarrow> pystr"

text \<open>A value inside an f-string: a \<open>str\<close> is inserted as it is.\<close>

definition fmt :: "env \<Rightarrow> json \<Rightarrow> pystr" where
  "fmt env v = (case v of JStr s \<Rightarrow> s | _ \<Rightarrow> py_str env v)"

section \<open>Initialisation (nodes/init\_node.py)\<close>

definition repo_missing_text :: pystr where
  "repo_missing_text = [0x4ED3, 0x5E93, 0x8DEF, 0x5F84, 0x4E0D, 0x5B58, 0x5728, 0x3A, 0x20]"

definition init_node :: "env \<Rightarrow> config \<Rightarrow> agent_state \<Rightarrow> py_error + agent_state" where
  "init_node env cfg s =
     (let repo = repo_path s in
      if \<not> path_exists env repo then
        Inr (s\<lparr>status := u ''error'', error := Some (repo_missing_text @ repo)\<rparr>)
      else
        Inr (s\<lparr>readme_content := read_readme env repo,
               directory_tree := get_directory_tree env repo,
               project_files := collect_project_files env repo,
               high_level_info := build_high_level_info env repo,
               status := u ''initialized''\<rparr>))"

section \<open>Synthesis (nodes/doc\_node.py)\<close>

text \<open>
  The prompts are text handed to the oracle, which here sees the whole state. What
  building a prompt can do to the control flow is raise: the missing parts are
  iterated over (to join them, or to list them in the report) when they are truthy.
\<close>

definition iterate_missing_parts :: "json \<Rightarrow> py_error option" where
  "iterate_missing_parts parts = (if truthy parts \<and> \<not> iterable parts then Some TypeError else None)"

definition generate_initial_doc :: "env \<Rightarrow> agent_state \<Rightarrow> py_error + pystr" where
  "generate_initial_doc env s =
     (case llm_invoke env InitialDoc s of None \<Rightarrow> Inl OracleError | Some content \<Rightarrow> Inr content)"

definition update_document :: "env \<Rightarrow> agent_state \<Rightarrow> py_error + pystr" where
  "update_document env s =
     (case iterate_missing_parts (missing_parts s) of
        Some e \<Rightarrow> Inl e
      | None \<Rightarrow>
          (case llm_invoke env UpdateDoc s of None \<Rightarrow> Inl OracleError | Some content \<Rightarrow> Inr content))"

definition generate_doc_node :: "env \<Rightarrow> config \<Rightarrow> agent_state \<Rightarrow> py_error + agent_state" where
  "generate_doc_node env cfg s =
     (case (if iteration_count s = 0 then generate_initial_doc env s else update_document env s) of
        Inl e \<Rightarrow> Inl e
      | Inr new_document \<Rightarrow>
          Inr (s\<lparr>current_document := new_document,
                 document_versions := document_versions s @ [new_document],
                 iteration_count := iteration_count s + 1,
                 current_tool_results := [],
                 status := u ''doc_generated'',
                 external_calls := external_calls s @
                   [LLMCall (if iteration_count s = 0 then InitialDoc else UpdateDoc)]\<rparr>))"

section \<open>Evaluation (nodes/check\_node.py)\<close>

text \<open>
  \<open>re.search(r'\{[\s\S]*\}', content)\<close>: the match starts at the first opening
  brace that has a closing brace after it and, the star being greedy, ends at the
  last closing brace of the text.
\<close>

definition lbrace :: nat where "lbrace = 0x7B"
definition rbrace :: nat where "rbrace = 0x7D"

definition json_block :: "pystr \<Rightarrow> pystr option" where
  "json_block content =
     (case dropWhile (\<lambda>c. c \<noteq> lbrace) content of
        [] \<Rightarrow> None
      | c # body \<Rightarrow>
          if rbrace \<in> set body
          then Some (c # rev (dropWhile (\<lambda>c. c \<noteq> rbrace) (rev body)))
          else None)"

definition unable_to_assess :: pystr where
  "unable_to_assess = [0x65E0, 0x6CD5, 0x8BC4, 0x4F30]"

type_synonym verdict = "json \<times> json \<times> json \<times> json"

text \<open>
  The part of \<open>_evaluate_completeness\<close> after the oracle has replied. A block that
  \<open>json.loads\<close> decodes to something without \<open>get\<close> raises \<open>AttributeError\<close>, which
  the \<open>except json.JSONDecodeError\<close> clause does not catch.
\<close>

definition parse_evaluation :: "env \<Rightarrow> pystr \<Rightarrow> int \<Rightarrow> py_error + verdict" where
  "parse_evaluation env content iter =
     (case (case json_block content of
              Some block \<Rightarrow> json_loads env block
            | None \<Rightarrow>
                Some (JDict [(u ''is_complete'', JBool (3 \<le> iter)),
                             (u ''confidence_score'', JFloat (7 / 10)),
                             (u ''missing_parts'', JList []),
                             (u ''suggested_tools'', JList [])])) of
        None \<Rightarrow> Inr (JBool False, JFloat (1 / 2), JList [JStr unable_to_assess], JList [])
      | Some (JDict res) \<Rightarrow>
          Inr (dict_get res (u ''is_complete'') (JBool False),
               dict_get res (u ''confidence_score'') (JFloat (1 / 2)),
               dict_get res (u ''missing_parts'') (JList []),
               dict_get res (u ''suggested_tools'') (JList []))
      | Some _ \<Rightarrow> Inl AttributeError)"

definition evaluate_completeness :: "env \<Rightarrow> agent_state \<Rightarrow> int \<Rightarrow> py_error + verdict" where
  "evaluate_completeness env s iter =
     (case llm_invoke env Evaluate s of
        None \<Rightarrow> Inl OracleError
      | Some content \<Rightarrow> parse_evaluation env content iter)"

definition check_completeness_node :: "env \<Rightarrow> config \<Rightarrow> agent_state \<Rightarrow> py_error + agent_state" where
  "check_completeness_node env cfg s =
     (if max_iterations s \<le> iteration_count s then
        Inr (s\<lparr>is_complete := JBool True, status := u ''completed''\<rparr>)
      else
        (case evaluate_completeness env s (iteration_count s) of
           Inl e \<Rightarrow> Inl e
         | Inr (verdict_complete, confidence, missing, suggested_tools) \<Rightarrow>
             (let s1 = s\<lparr>is_complete := verdict_complete,
                         confidence_score := confidence,
                         missing_parts := missing,
                         external_calls := external_calls s @ [LLMCall Evaluate]\<rparr>
              in if truthy verdict_complete then
                   (case format_2f confidence of
                      Some e \<Rightarrow> Inl e
                    | None \<Rightarrow> Inr (s1\<lparr>status := u ''completed''\<rparr>))
                 else
                   Inr (s1\<lparr>status := u ''needs_exploration'',
                           current_tool_results := json_dumps env suggested_tools\<rparr>))))"

section \<open>Dispatch (nodes/tool\_node.py)\<close>

definition TOOL_REGISTRY :: "pystr list" where
  "TOOL_REGISTRY =
     [u ''get_file_content'', u ''get_file_outline'', u ''get_function_info'',
      u ''get_class_info'', u ''search_code'', u ''search_imports'',
      u ''list_files_by_extension'']"

definition explore_python_text :: pystr where
  "explore_python_text = [0x63A2, 0x7D22, 0x20] @ u ''Python'' @ [0x20, 0x6E90, 0x4EE3, 0x7801]"

definition default_tools :: json where
  "default_tools =
     JList [JDict [(u ''tool'', JStr (u ''list_files_by_extension'')),
                   (u ''args'', JDict [(u ''extension'', JStr (u ''.py''))]),
                   (u ''reason'', JStr explore_python_text)]]"

text \<open>
  \<open>_select_tools_with_llm\<close>. The missing parts are joined before the \<open>try\<close>, so
  that failure is not caught; everything the \<open>try\<close> block raises (the oracle call,
  \<open>json.loads\<close>, \<open>get\<close> on a value that is not a dict) ends in the default list.
\<close>

definition select_tools_with_llm :: "env \<Rightarrow> config \<Rightarrow> agent_state \<Rightarrow> py_error + json" where
  "select_tools_with_llm env cfg s =
     (case iterate_missing_parts (missing_parts s) of
        Some e \<Rightarrow> Inl e
      | None \<Rightarrow>
          Inr (case llm_invoke env SelectTools s of
                 None \<Rightarrow> default_tools
               | Some content \<Rightarrow>
                   (case json_block content of
                      None \<Rightarrow> default_tools
                    | Some block \<Rightarrow>
                        (case json_loads env block of
                           Some (JDict res) \<Rightarrow> dict_get res (u ''tool_calls'') (JList [])
                         | _ \<Rightarrow> default_tools))))"

text \<open>The proposals the evaluation step left in \<open>current_tool_results\<close>.\<close>

definition suggested_from_state :: "env \<Rightarrow> agent_state \<Rightarrow> json" where
  "suggested_from_state env s =
     (if current_tool_results s \<noteq> [] then
        (case json_loads env (current_tool_results s) of
           None \<Rightarrow> JList []
         | Some (JList xs) \<Rightarrow> JList xs
         | Some (JDict d) \<Rightarrow>
             (case map_of d (u ''tool_calls'') of Some v \<Rightarrow> v | None \<Rightarrow> JList [])
         | Some _ \<Rightarrow> JList [])
      else JList [])"

text \<open>
  \<open>suggested_tools[:max_tools]\<close> and the elements the \<open>for\<close> loop then visits: a list
  gives its elements, a \<open>str\<close> gives one-character strings, and any other value
  cannot be sliced.
\<close>

fun slice_suggested :: "json \<Rightarrow> int \<Rightarrow> py_error + json list" where
  "slice_suggested (JList xs) n = Inr (slice_to xs n)"
| "slice_suggested (JStr s) n = Inr (map (\<lambda>c. JStr [c]) (slice_to s n))"
| "slice_suggested v n = Inl TypeError"

definition tool_heading :: pystr where
  "tool_heading = u ''### '' @ [0x5DE5, 0x5177] @ u '': ''"

definition params_label :: pystr where
  "params_label = u ''**'' @ [0x53C2, 0x6570] @ u ''**: ''"

definition reason_label :: pystr where
  "reason_label = u ''**'' @ [0x539F, 0x56E0] @ u ''**: ''"

definition result_label :: pystr where
  "result_label = u ''**'' @ [0x7ED3, 0x679C] @ u ''**:''"

definition error_label :: pystr where
  "error_label = u ''**'' @ [0x9519, 0x8BEF] @ u ''**: ''"

definition newline :: pystr where
  "newline = [0x0A]"

definition success_entry :: "env \<Rightarrow> pystr \<Rightarrow> json \<Rightarrow> json \<Rightarrow> pystr \<Rightarrow> pystr" where
  "success_entry env tool args reason res =
     tool_heading @ tool @ newline @ params_label @ fmt env args @ newline @
     reason_label @ fmt env reason @ newline @ result_label @ newline @ res @ newline"

definition error_entry :: "pystr \<Rightarrow> pystr \<Rightarrow> pystr" where
  "error_entry tool e = tool_heading @ tool @ newline @ error_label @ e @ newline"

text \<open>
  The \<open>try\<close> block of the loop body, for a registered name: the recorded call, its
  entry in the evidence bundle, and the handler invocation if one was made. The
  assignment \<open>args["repo_path"] = repo_path\<close> raises on a value that is not a dict,
  before the handler is reached.
\<close>

definition invoke_tool ::
  "env \<Rightarrow> pystr \<Rightarrow> pystr \<Rightarrow> json \<Rightarrow> json \<Rightarrow> tool_call \<times> pystr \<times> event list" where
  "invoke_tool env repo tool args reason =
     (case args of
        JDict a \<Rightarrow>
          (let args1 = JDict (dict_set a (u ''repo_path'') (JStr repo)) in
           case tool_invoke env tool args1 of
             Inr res \<Rightarrow>
               (\<lparr>tool_name = tool, arguments = args1, result = take 2000 res, success = True\<rparr>,
                success_entry env tool args1 reason res,
                [ToolInvoke tool args1])
           | Inl e \<Rightarrow>
               (\<lparr>tool_name = tool, arguments = args1, result = e, success = False\<rparr>,
                error_entry tool e,
                [ToolInvoke tool args1]))
      | _ \<Rightarrow>
          (let e = setitem_error env args in
           (\<lparr>tool_name = tool, arguments = args, result = e, success = False\<rparr>,
            error_entry tool e,
            [])))"

text \<open>
  One pass of the loop body: what it appends to \<open>tool_calls\<close>, to \<open>results\<close> and to
  the log. \<open>tool_spec.get\<close> raises on a value that is not a dict, and the registry
  lookup raises on a name that cannot be hashed; both are outside the \<open>try\<close>.
\<close>

definition run_tool_spec ::
  "env \<Rightarrow> pystr \<Rightarrow> json \<Rightarrow> py_error + (tool_call list \<times> pystr list \<times> event list)" where
  "run_tool_spec env repo tool_spec =
     (case tool_spec of
        JDict spec \<Rightarrow>
          (let name = dict_get spec (u ''tool'') (JStr []);
               args = dict_get spec (u ''args'') (JDict []);
               reason = dict_get spec (u ''reason'') (JStr [])
           in if \<not> hashable name then Inl TypeError
              else
                (case name of
                   JStr tool \<Rightarrow>
                     if tool \<notin> set TOOL_REGISTRY then Inr ([], [], [])
                     else
                       (case invoke_tool env repo tool args reason of
                          (tc, entry, evs) \<Rightarrow> Inr ([tc], [entry], evs))
                 | _ \<Rightarrow> Inr ([], [], [])))
      | _ \<Rightarrow> Inl AttributeError)"

fun run_tool_specs ::
  "env \<Rightarrow> pystr \<Rightarrow> json list \<Rightarrow> tool_call list \<times> pystr list \<times> event list \<Rightarrow>
   py_error + (tool_call list \<times> pystr list \<times> event list)" where
  "run_tool_specs env repo [] acc = Inr acc"
| "run_tool_specs env repo (tool_spec # rest) (tcs, results, evs) =
     (case run_tool_spec env repo tool_spec of
        Inl e \<Rightarrow> Inl e
      | Inr (tc, entry, ev) \<Rightarrow> run_tool_specs env repo rest (tcs @ tc, results @ entry, evs @ ev))"

definition action_text :: "env \<Rightarrow> nat \<Rightarrow> pystr" where
  "action_text env n =
     [0x6267, 0x884C, 0x4E86, 0x20] @ py_str env (JInt (int n)) @
     [0x20, 0x4E2A, 0x5DE5, 0x5177, 0x8C03, 0x7528]"

definition findings_text :: "env \<Rightarrow> nat \<Rightarrow> pystr" where
  "findings_text env n =
     [0x83B7, 0x53D6, 0x4E86, 0x20] @ py_str env (JInt (int n)) @
     [0x20, 0x4E2A, 0x6210, 0x529F, 0x7ED3, 0x679C]"

text \<open>
  The proposals the node goes on with: those found in the state or, when that value
  is falsy, the selection; with the oracle call the selection made.
\<close>

definition resolve_suggested ::
  "env \<Rightarrow> config \<Rightarrow> agent_state \<Rightarrow> py_error + (json \<times> event list)" where
  "resolve_suggested env cfg s =
     (let suggested = suggested_from_state env s in
      if \<not> truthy suggested then
        (case select_tools_with_llm env cfg s of
           Inl e \<Rightarrow> Inl e
         | Inr selected \<Rightarrow> Inr (selected, [LLMCall SelectTools]))
      else Inr (suggested, []))"

definition tool_execution_node :: "env \<Rightarrow> config \<Rightarrow> agent_state \<Rightarrow> py_error + agent_state" where
  "tool_execution_node env cfg s =
     (case resolve_suggested env cfg s of
        Inl e \<Rightarrow> Inl e
      | Inr (suggested, sel) \<Rightarrow>
          (case slice_suggested suggested (cfg_max_tool_calls_per_iteration cfg) of
             Inl e \<Rightarrow> Inl e
           | Inr specs \<Rightarrow>
               (case run_tool_specs env (repo_path s) specs ([], [], []) of
                  Inl e \<Rightarrow> Inl e
                | Inr (tcs, results, evs) \<Rightarrow>
                    Inr (s\<lparr>exploration_history := exploration_history s @
                             [\<lparr>iteration = iteration_count s,
                               action = action_text env (length tcs),
                               findings = findings_text env (length (filter success tcs)),
                               tool_calls = tcs\<rparr>],
                           current_tool_results := join (newline @ newline) results,
                           status := u ''tools_executed'',
                           external_calls := external_calls s @ sel @ evs\<rparr>))))"

section \<open>Persistence (nodes/save\_node.py)\<close>

definition save_failed_text :: pystr where
  "save_failed_text = [0x4FDD, 0x5B58, 0x8F93, 0x51FA, 0x5931, 0x8D25, 0x3A, 0x20]"

text \<open>
  \<open>_generate_report\<close>, as far as it can fail: the confidence is formatted with
  \<open>:.2f\<close>, then the missing parts are listed. \<open>Some\<close> is the text of the exception.
\<close>

definition generate_report :: "env \<Rightarrow> agent_state \<Rightarrow> pystr option" where
  "generate_report env s =
     (if format_2f (confidence_score s) \<noteq> None then Some (report_error env (confidence_score s))
      else if iterate_missing_parts (missing_parts s) \<noteq> None
        then Some (report_error env (missing_parts s))
      else None)"

text \<open>
  The output directory is created before the \<open>try\<close>; inside it the documents are
  written, the report is built, and the report and the intermediate versions are
  written. The first failure inside the \<open>try\<close> becomes the error description.
\<close>

definition save_output_node :: "env \<Rightarrow> config \<Rightarrow> agent_state \<Rightarrow> py_error + agent_state" where
  "save_output_node env cfg s =
     (if \<not> mkdir_output env s then Inl OSError
      else
        (case (case write_documents env s of
                 Some e \<Rightarrow> Some e
               | None \<Rightarrow>
                   (case generate_report env s of
                      Some e \<Rightarrow> Some e
                    | None \<Rightarrow> write_report env s)) of
           None \<Rightarrow> Inr (s\<lparr>status := u ''completed''\<rparr>)
         | Some e \<Rightarrow> Inr (s\<lparr>status := u ''error'', error := Some (save_failed_text @ e)\<rparr>)))"

section \<open>The workflow graph (agent\_workflow.py)\<close>

datatype node = Init | GenerateDoc | CheckCompleteness | ExecuteTools | SaveOutput | END

datatype route = Continue | Error | Complete | Explore

definition check_error :: "agent_state \<Rightarrow> route" where
  "check_error s = (if status s = u ''error'' then Error else Continue)"

definition route_after_check :: "agent_state \<Rightarrow> route" where
  "route_after_check s =
     (if status s = u ''error'' then Error
      else if truthy (is_complete s) then Complete
      else Explore)"

fun node_function :: "node \<Rightarrow> env \<Rightarrow> config \<Rightarrow> agent_state \<Rightarrow> py_error + agent_state" where
  "node_function Init = init_node"
| "node_function GenerateDoc = generate_doc_node"
| "node_function CheckCompleteness = check_completeness_node"
| "node_function ExecuteTools = tool_execution_node"
| "node_function SaveOutput = save_output_node"
| "node_function END = (\<lambda>env cfg s. Inr s)"

text \<open>The edges of \<open>_build_graph\<close>.\<close>

fun next_node :: "node \<Rightarrow> agent_state \<Rightarrow> node" where
  "next_node Init s = (case check_error s of Continue \<Rightarrow> GenerateDoc | _ \<Rightarrow> END)"
| "next_node GenerateDoc s = (case check_error s of Continue \<Rightarrow> CheckCompleteness | _ \<Rightarrow> END)"
| "next_node CheckCompleteness s =
     (case route_after_check s of Complete \<Rightarrow> SaveOutput | Explore \<Rightarrow> ExecuteTools | _ \<Rightarrow> END)"
| "next_node ExecuteTools s = (case check_error s of Continue \<Rightarrow> GenerateDoc | _ \<Rightarrow> END)"
| "next_node SaveOutput s = END"
| "next_node END s = END"

text \<open>
  One step of the graph: the node at hand runs on the state, and the edge out of it
  is chosen on the state it returns. An exception a node does not catch leaves the
  graph.
\<close>

definition step :: "env \<Rightarrow> config \<Rightarrow> node \<times> agent_state \<Rightarrow> py_error + (node \<times> agent_state)" where
  "step env cfg c =
     (case node_function (fst c) env cfg (snd c) of
        Inl e \<Rightarrow> Inl e
      | Inr s \<Rightarrow> Inr (next_node (fst c) s, s))"

text \<open>
  The iterations left, and with them a bound on the steps left from a node: it
  shows that the graph always comes to its end.
\<close>

definition iterations_left :: "agent_state \<Rightarrow> nat" where
  "iterations_left s = nat (max_iterations s - iteration_count s)"

fun steps_bound :: "node \<times> agent_state \<Rightarrow> nat" where
  "steps_bound (END, s) = 0"
| "steps_bound (SaveOutput, s) = 1"
| "steps_bound (CheckCompleteness, s) =
     (if iterations_left s = 0 then 2 else 4 * iterations_left s + 5)"
| "steps_bound (GenerateDoc, s) = 4 * iterations_left s + 3"
| "steps_bound (ExecuteTools, s) = 4 * iterations_left s + 4"
| "steps_bound (Init, s) = 4 * iterations_left s + 6"

text \<open>
  \<open>graph.invoke\<close>: the steps are taken until the graph's end is reached. The graph
  is run as its edges say; the step limit that the graph library applies by default
  is not set anywhere in the repository and is not modelled.
\<close>

function invoke_graph :: "env \<Rightarrow> config \<Rightarrow> node \<times> agent_state \<Rightarrow> py_error + agent_state" where
  "invoke_graph env cfg (n, s) =
     (if n = END then Inr s
      else
        (case step env cfg (n, s) of
           Inl e \<Rightarrow> Inl e
         | Inr c \<Rightarrow> invoke_graph env cfg c))"
  by pat_completeness auto

termination
proof (relation "measure (\<lambda>(env, cfg, c). steps_bound c)")
  fix env :: env and cfg :: config and n :: node and s :: agent_state and c :: "node \<times> agent_state"
  assume n: "n \<noteq> END" and st: "step env cfg (n, s) = Inr c"
  have "steps_bound c < steps_bound (n, s)"
  proof (cases n)
    case Init
    with st show ?thesis
      by (auto simp: step_def init_node_def Let_def check_error_def iterations_left_def
          split: if_splits)
  next
    case GenerateDoc
    with st show ?thesis
      by (auto simp: step_def generate_doc_node_def check_error_def iterations_left_def
          split: if_splits sum.splits)
  next
    case CheckCompleteness
    with st show ?thesis
      by (auto simp: step_def check_completeness_node_def route_after_check_def Let_def
          iterations_left_def split: if_splits sum.splits option.splits prod.splits)
  next
    case ExecuteTools
    with st show ?thesis
      by (auto simp: step_def tool_execution_node_def check_error_def iterations_left_def
          split: if_splits sum.splits prod.splits)
  next
    case SaveOutput
    with st show ?thesis
      by (auto simp: step_def save_output_node_def split: if_splits sum.splits option.splits)
  next
    case END
    with n show ?thesis by simp
  qed
  then show "((env, cfg, c), (env, cfg, (n, s))) \<in> measure (\<lambda>(env, cfg, c). steps_bound c)"
    by simp
qed simp

declare invoke_graph.simps [simp del]

text \<open>
  \<open>Repo2DocAgentWorkflow.run\<close>: after the graph has ended, a run that completed
  logs its confidence with \<open>:.2f\<close>.
\<close>

definition initial_configuration :: "config \<Rightarrow> pystr \<Rightarrow> pystr option \<Rightarrow> node \<times> agent_state" where
  "initial_configuration cfg repo cpath =
     (Init, create_initial_state repo cpath (cfg_max_iterations cfg))"

definition run :: "env \<Rightarrow> config \<Rightarrow> pystr \<Rightarrow> pystr option \<Rightarrow> py_error + agent_state" where
  "run env cfg repo cpath =
     (case invoke_graph env cfg (initial_configuration cfg repo cpath) of
        Inl e \<Rightarrow> Inl e
      | Inr final_state \<Rightarrow>
          if status final_state = u ''completed'' then
            (case format_2f (confidence_score final_state) of
               Some e \<Rightarrow> Inl e
             | None \<Rightarrow> Inr final_state)
          else Inr final_state)"

text \<open>
  The observation points of a run: the state at every node the graph reaches, from
  the initial state on.
\<close>

inductive reachable :: "env \<Rightarrow> config \<Rightarrow> node \<times> agent_state \<Rightarrow> node \<times> agent_state \<Rightarrow> bool"
  for env :: env and cfg :: config and c0 :: "node \<times> agent_state" where
  reachable_start: "reachable env cfg c0 c0"
| reachable_step: "reachable env cfg c0 c \<Longrightarrow> fst c \<noteq> END \<Longrightarrow> step env cfg c = Inr c' \<Longrightarrow>
     reachable env cfg c0 c'"

text \<open>The synthesis calls a state's log holds.\<close>

definition synthesis_calls :: "agent_state \<Rightarrow> nat" where
  "synthesis_calls s =
     length (filter (\<lambda>e. e = LLMCall InitialDoc \<or> e = LLMCall UpdateDoc) (external_calls s))"

section \<open>Invariants of a run\<close>

text \<open>
  What holds at every observation point: the versions kept and the synthesis calls
  logged are as many as the iteration count says; and, with a cap of at least one,
  where the count stands against the cap at each node.
\<close>

definition counts_agree :: "agent_state \<Rightarrow> bool" where
  "counts_agree s =
     (int (length (document_versions s)) = iteration_count s \<and>
      int (synthesis_calls s) = iteration_count s)"

definition within_cap :: "node \<times> agent_state \<Rightarrow> bool" where
  "within_cap c =
     (case c of
        (n, s) \<Rightarrow>
          (case n of
             Init \<Rightarrow> iteration_count s = 0 \<and> 1 \<le> max_iterations s
           | GenerateDoc \<Rightarrow> 0 \<le> iteration_count s \<and> iteration_count s < max_iterations s
           | CheckCompleteness \<Rightarrow> 1 \<le> iteration_count s \<and> iteration_count s \<le> max_iterations s
           | ExecuteTools \<Rightarrow> 1 \<le> iteration_count s \<and> iteration_count s < max_iterations s
           | SaveOutput \<Rightarrow> 1 \<le> iteration_count s \<and> iteration_count s \<le> max_iterations s
           | END \<Rightarrow> 0 \<le> iteration_count s \<and> iteration_count s \<le> max_iterations s))"

text \<open>
  Where a run stands whose repository exists and whose evaluator never reports
  completion: persistence and the end are reached at the cap only.
\<close>

definition ends_at_cap :: "node \<times> agent_state \<Rightarrow> bool" where
  "ends_at_cap c =
     (case c of
        (n, s) \<Rightarrow>
          (case n of
             Init \<Rightarrow> status s = u ''initialized''
           | SaveOutput \<Rightarrow> iteration_count s = max_iterations s
           | END \<Rightarrow> iteration_count s = max_iterations s \<and>
                    (status s = u ''completed'' \<or> status s = u ''error'')
           | _ \<Rightarrow> True))"

section \<open>Observing a batch\<close>

text \<open>
  The registered capability a proposal names, if it names one: the test the loop
  body makes before it reaches the \<open>try\<close>.
\<close>

definition registered_name :: "json \<Rightarrow> pystr option" where
  "registered_name tool_spec =
     (case tool_spec of
        JDict spec \<Rightarrow>
          (case dict_get spec (u ''tool'') (JStr []) of
             JStr tool \<Rightarrow> if tool \<in> set TOOL_REGISTRY then Some tool else None
           | _ \<Rightarrow> None)
      | _ \<Rightarrow> None)"


text \<open>The calls a node added to the log, and the handler invocations among calls.\<close>

definition new_calls :: "agent_state \<Rightarrow> agent_state \<Rightarrow> event list" where
  "new_calls s s' = drop (length (external_calls s)) (external_calls s')"

definition handler_invocations :: "event list \<Rightarrow> event list" where
  "handler_invocations evs =
     filter (\<lambda>ev. case ev of ToolInvoke name args \<Rightarrow> True | _ \<Rightarrow> False) evs"

section \<open>A stub environment\<close>

text \<open>
  An oracle stub and the proposals it is run on. The texts are what \<open>json.dumps\<close>
  prints for the values, and \<open>stub_texts\<close> is \<open>json.loads\<close> on them; the other
  text the stub is given to decode, \<open>{broken}\<close>, is one \<open>json.loads\<close> rejects.
\<close>

definition dq :: pystr where
  "dq = [0x22]"

definition unregistered_call :: json where
  "unregistered_call = JDict [(u ''tool'', JStr (u ''read_everything'')), (u ''args'', JDict [])]"

definition search_call :: "string \<Rightarrow> json" where
  "search_call q =
     JDict [(u ''tool'', JStr (u ''search_code'')), (u ''args'', JDict [(u ''query'', JStr (u q))])]"

definition injected_call :: json where
  "injected_call =
     JDict [(u ''tool'', JStr (u ''search_code'')),
            (u ''args'', JDict [(u ''query'', JStr (u ''TODO'')), (u ''repo_path'', JStr (u ''/etc''))])]"

definition failing_call :: json where
  "failing_call = JDict [(u ''tool'', JStr (u ''get_file_content'')), (u ''args'', JDict [])]"

definition unregistered_only_text :: pystr where
  "unregistered_only_text =
     u ''[{'' @ dq @ u ''tool'' @ dq @ u '': '' @ dq @ u ''read_everything'' @ dq @ u '', '' @ dq @ u ''args'' @ dq @ u '': {}}]''"

definition unregistered_first_text :: pystr where
  "unregistered_first_text =
     u ''[{'' @ dq @ u ''tool'' @ dq @ u '': '' @ dq @ u ''read_everything'' @ dq @ u '', '' @ dq @ u ''args'' @ dq @ u '': {}}, {'' @ dq @ u ''tool'' @ dq @ u '': '' @ dq @ u ''search_code'' @ dq @ u '', '' @ dq @ u ''args'' @ dq @ u '': {'' @ dq @ u ''query'' @ dq @ u '': '' @ dq @ u ''TODO'' @ dq @ u ''}}]''"

definition injected_text :: pystr where
  "injected_text =
     u ''[{'' @ dq @ u ''tool'' @ dq @ u '': '' @ dq @ u ''search_code'' @ dq @ u '', '' @ dq @ u ''args'' @ dq @ u '': {'' @ dq @ u ''query'' @ dq @ u '': '' @ dq @ u ''TODO'' @ dq @ u '', '' @ dq @ u ''repo_path'' @ dq @ u '': '' @ dq @ u ''/etc'' @ dq @ u ''}}]''"

definition failing_first_text :: pystr where
  "failing_first_text =
     u ''[{'' @ dq @ u ''tool'' @ dq @ u '': '' @ dq @ u ''get_file_content'' @ dq @ u '', '' @ dq @ u ''args'' @ dq @ u '': {}}, {'' @ dq @ u ''tool'' @ dq @ u '': '' @ dq @ u ''search_code'' @ dq @ u '', '' @ dq @ u ''args'' @ dq @ u '': {'' @ dq @ u ''query'' @ dq @ u '': '' @ dq @ u ''TODO'' @ dq @ u ''}}]''"

definition three_searches_text :: pystr where
  "three_searches_text =
     u ''[{'' @ dq @ u ''tool'' @ dq @ u '': '' @ dq @ u ''search_code'' @ dq @ u '', '' @ dq @ u ''args'' @ dq @ u '': {'' @ dq @ u ''query'' @ dq @ u '': '' @ dq @ u ''a'' @ dq @ u ''}}, {'' @ dq @ u ''tool'' @ dq @ u '': '' @ dq @ u ''search_code'' @ dq @ u '', '' @ dq @ u ''args'' @ dq @ u '': {'' @ dq @ u ''query'' @ dq @ u '': '' @ dq @ u ''b'' @ dq @ u ''}}, {'' @ dq @ u ''tool'' @ dq @ u '': '' @ dq @ u ''search_code'' @ dq @ u '', '' @ dq @ u ''args'' @ dq @ u '': {'' @ dq @ u ''query'' @ dq @ u '': '' @ dq @ u ''c'' @ dq @ u ''}}]''"

definition two_searches_text :: pystr where
  "two_searches_text =
     u ''[{'' @ dq @ u ''tool'' @ dq @ u '': '' @ dq @ u ''search_code'' @ dq @ u '', '' @ dq @ u ''args'' @ dq @ u '': {'' @ dq @ u ''query'' @ dq @ u '': '' @ dq @ u ''a'' @ dq @ u ''}}, {'' @ dq @ u ''tool'' @ dq @ u '': '' @ dq @ u ''search_code'' @ dq @ u '', '' @ dq @ u ''args'' @ dq @ u '': {'' @ dq @ u ''query'' @ dq @ u '': '' @ dq @ u ''b'' @ dq @ u ''}}]''"

definition stub_texts :: "(pystr \<times> json) list" where
  "stub_texts =
     [(u ''{}'', JDict []),
      (u ''[]'', JList []),
      (unregistered_only_text, JList [unregistered_call]),
      (unregistered_first_text, JList [unregistered_call, search_call ''TODO'']),
      (injected_text, JList [injected_call]),
      (failing_first_text, JList [failing_call, search_call ''TODO'']),
      (two_searches_text, JList [search_call ''a'', search_call ''b'']),
      (three_searches_text, JList [search_call ''a'', search_call ''b'', search_call ''c''])]"

text \<open>
  The stub: the repository exists or not; the evaluator always gives the same
  reply; the selection call fails; the handler of \<open>get_file_content\<close> raises and
  every other handler returns a file name.
\<close>

definition stub_env :: "bool \<Rightarrow> pystr \<Rightarrow> env" where
  "stub_env exists reply =
     \<lparr> path_exists = (\<lambda>p. exists),
       read_readme = (\<lambda>p. []),
       get_directory_tree = (\<lambda>p. []),
       collect_project_files = (\<lambda>p. []),
       build_high_level_info = (\<lambda>p. []),
       llm_invoke =
         (\<lambda>k s. case k of
                  Evaluate \<Rightarrow> Some reply
                | SelectTools \<Rightarrow> None
                | _ \<Rightarrow> Some (u ''# Requirements'')),
       json_loads = map_of stub_texts,
       json_dumps =
         (\<lambda>v. case find (\<lambda>p. snd p = v) stub_texts of
                Some p \<Rightarrow> fst p
              | None \<Rightarrow> u ''null''),
       py_str = (\<lambda>v. u ''?''),
       setitem_error = (\<lambda>v. u ''object does not support item assignment''),
       tool_invoke =
         (\<lambda>name args. if name = u ''get_file_content''
                      then Inl (u ''file_path: field required'')
                      else Inr (u ''main.py'')),
       mkdir_output = (\<lambda>s. True),
       write_documents = (\<lambda>s. None),
       write_report = (\<lambda>s. None),
       report_error = (\<lambda>v. u ''unsupported format string'') \<rparr>"

definition stub_config :: "int \<Rightarrow> int \<Rightarrow> config" where
  "stub_config max_iter max_tools =
     \<lparr>cfg_max_iterations = max_iter, cfg_max_tool_calls_per_iteration = max_tools\<rparr>"

text \<open>A state in the middle of a run, with the given proposals pending.\<close>

definition stub_state :: "int \<Rightarrow> pystr \<Rightarrow> agent_state" where
  "stub_state iter proposals =
     (create_initial_state (u ''/repo'') None 10)
       \<lparr>current_document := u ''# Requirements'',
        document_versions := replicate (nat iter) (u ''# Requirements''),
        iteration_count := iter,
        current_tool_results := proposals,
        status := u ''needs_exploration''\<rparr>"

section \<open>Facts about the dispatch loop\<close>


lemma u_eq_iff [simp]: "u s = u t \<longleftrightarrow> s = t"
  by (simp add: u_def inj_map_eq_map inj_of_char)

lemma map_of_dict_set [simp]: "map_of (dict_set d k v) k = Some v"
  by (simp add: dict_set_def update_conv')

lemma invoke_tool_name: "invoke_tool env repo tool args reason = (tc, entry, evs) \<Longrightarrow> tool_name tc = tool"
  by (auto simp: invoke_tool_def Let_def split: json.splits sum.splits)

lemma invoke_tool_events:
  "invoke_tool env repo tool args reason = (tc, entry, evs) \<Longrightarrow> ev \<in> set evs \<Longrightarrow>
     \<exists>a. ev = ToolInvoke tool (JDict a) \<and> arguments tc = JDict a \<and>
         map_of a (u ''repo_path'') = Some (JStr repo) \<and>
         (case tool_invoke env tool (JDict a) of
            Inr res \<Rightarrow> success tc \<and> result tc = take 2000 res
          | Inl e \<Rightarrow> \<not> success tc \<and> result tc = e)"
  by (auto simp: invoke_tool_def Let_def split: json.splits sum.splits)

lemma invoke_tool_success:
  "invoke_tool env repo tool args reason = (tc, entry, evs) \<Longrightarrow> success tc \<Longrightarrow>
     \<exists>a. arguments tc = JDict a \<and> map_of a (u ''repo_path'') = Some (JStr repo) \<and>
         evs = [ToolInvoke tool (JDict a)]"
  by (auto simp: invoke_tool_def Let_def split: json.splits sum.splits)

lemma invoke_tool_events_length:
  "invoke_tool env repo tool args reason = (tc, entry, evs) \<Longrightarrow> length evs \<le> 1"
  by (auto simp: invoke_tool_def Let_def split: json.splits sum.splits)

lemma run_tool_spec_cases:
  assumes "run_tool_spec env repo tool_spec = Inr out"
  shows "(registered_name tool_spec = None \<and> out = ([], [], [])) \<or>
         (\<exists>spec tool tc entry evs. tool_spec = JDict spec \<and> registered_name tool_spec = Some tool \<and>
            invoke_tool env repo tool (dict_get spec (u ''args'') (JDict []))
              (dict_get spec (u ''reason'') (JStr [])) = (tc, entry, evs) \<and>
            out = ([tc], [entry], evs))"
  using assms
  by (auto simp: run_tool_spec_def registered_name_def Let_def split: json.splits if_splits prod.splits)


lemma run_tool_specs_outs:
  "run_tool_specs env repo specs (a, b, c) = Inr (a', b', c') \<Longrightarrow>
     \<exists>outs. map (run_tool_spec env repo) specs = map Inr outs \<and>
       a' = a @ concat (map fst outs) \<and>
       b' = b @ concat (map (\<lambda>out. fst (snd out)) outs) \<and>
       c' = c @ concat (map (\<lambda>out. snd (snd out)) outs)"
proof (induction specs arbitrary: a b c)
  case Nil
  then show ?case by simp
next
  case (Cons x xs)
  from Cons.prems obtain tc entry ev where
    x: "run_tool_spec env repo x = Inr (tc, entry, ev)" and
    rest: "run_tool_specs env repo xs (a @ tc, b @ entry, c @ ev) = Inr (a', b', c')"
    by (auto split: sum.splits prod.splits)
  from Cons.IH [OF rest] obtain outs where
    outs: "map (run_tool_spec env repo) xs = map Inr outs"
      "a' = (a @ tc) @ concat (map fst outs)"
      "b' = (b @ entry) @ concat (map (\<lambda>out. fst (snd out)) outs)"
      "c' = (c @ ev) @ concat (map (\<lambda>out. snd (snd out)) outs)"
    by blast
  show ?case
    by (rule exI [of _ "(tc, entry, ev) # outs"]) (simp add: x outs)
qed


lemma tool_execution_node_Inr:
  assumes "tool_execution_node env cfg s = Inr s'"
  obtains suggested sel specs tcs results evs where
    "resolve_suggested env cfg s = Inr (suggested, sel)"
    "slice_suggested suggested (cfg_max_tool_calls_per_iteration cfg) = Inr specs"
    "run_tool_specs env (repo_path s) specs ([], [], []) = Inr (tcs, results, evs)"
    "s' = s\<lparr>exploration_history := exploration_history s @
               [\<lparr>iteration = iteration_count s,
                 action = action_text env (length tcs),
                 findings = findings_text env (length (filter success tcs)),
                 tool_calls = tcs\<rparr>],
             current_tool_results := join (newline @ newline) results,
             status := u ''tools_executed'',
             external_calls := external_calls s @ sel @ evs\<rparr>"
  using assms by (auto simp: tool_execution_node_def split: sum.splits prod.splits)

lemma resolve_suggested_sel:
  "resolve_suggested env cfg s = Inr (suggested, sel) \<Longrightarrow>
     (sel = [] \<and> suggested = suggested_from_state env s \<and> truthy (suggested_from_state env s)) \<or>
     (sel = [LLMCall SelectTools] \<and> \<not> truthy (suggested_from_state env s) \<and>
        select_tools_with_llm env cfg s = Inr suggested)"
  by (auto simp: resolve_suggested_def Let_def split: if_splits sum.splits)

lemma resolve_suggested_list:
  "suggested_from_state env s = JList xs \<Longrightarrow> xs \<noteq> [] \<Longrightarrow>
     resolve_suggested env cfg s = Inr (JList xs, [])"
  by (simp add: resolve_suggested_def)


lemma outs_names:
  "map (run_tool_spec env repo) specs = map Inr outs \<Longrightarrow>
     map tool_name (concat (map fst outs)) = List.map_filter registered_name specs"
proof (induction specs arbitrary: outs)
  case Nil
  then show ?case by (simp add: map_filter_simps)
next
  case (Cons x xs)
  from Cons.prems obtain out outs' where
    outs: "outs = out # outs'" and x: "run_tool_spec env repo x = Inr out" and
    rest: "map (run_tool_spec env repo) xs = map Inr outs'"
    by (cases outs) auto
  from run_tool_spec_cases [OF x] show ?case
    using Cons.IH [OF rest] by (auto simp: outs map_filter_simps dest: invoke_tool_name)
qed


lemma outs_member:
  assumes "map (run_tool_spec env repo) specs = map Inr outs"
    and "out \<in> set outs"
  shows "\<exists>x \<in> set specs. run_tool_spec env repo x = Inr out"
proof -
  from assms(2) obtain i where i: "i < length outs" "outs ! i = out"
    by (auto simp: in_set_conv_nth)
  from assms(1) have len: "length specs = length outs"
    by (metis length_map)
  from assms(1) have "map (run_tool_spec env repo) specs ! i = map Inr outs ! i" by simp
  with i len have "run_tool_spec env repo (specs ! i) = Inr out" by simp
  with i len show ?thesis by (metis nth_mem)
qed





lemma tool_execution_node_outs:
  assumes "tool_execution_node env cfg s = Inr s'"
  obtains suggested sel specs outs where
    "resolve_suggested env cfg s = Inr (suggested, sel)"
    "slice_suggested suggested (cfg_max_tool_calls_per_iteration cfg) = Inr specs"
    "map (run_tool_spec env (repo_path s)) specs = map Inr outs"
    "tool_calls (last (exploration_history s')) = concat (map fst outs)"
    "current_tool_results s' = join (newline @ newline) (concat (map (\<lambda>out. fst (snd out)) outs))"
    "new_calls s s' = sel @ concat (map (\<lambda>out. snd (snd out)) outs)"
    "status s' = u ''tools_executed''"
proof -
  from assms obtain suggested sel specs tcs results evs where
    res: "resolve_suggested env cfg s = Inr (suggested, sel)" and
    sl: "slice_suggested suggested (cfg_max_tool_calls_per_iteration cfg) = Inr specs" and
    run: "run_tool_specs env (repo_path s) specs ([], [], []) = Inr (tcs, results, evs)" and
    s': "s' = s\<lparr>exploration_history := exploration_history s @
               [\<lparr>iteration = iteration_count s,
                 action = action_text env (length tcs),
                 findings = findings_text env (length (filter success tcs)),
                 tool_calls = tcs\<rparr>],
             current_tool_results := join (newline @ newline) results,
             status := u ''tools_executed'',
             external_calls := external_calls s @ sel @ evs\<rparr>"
    by (rule tool_execution_node_Inr)
  from run_tool_specs_outs [OF run] obtain outs where
    outs: "map (run_tool_spec env (repo_path s)) specs = map Inr outs" and
    tcs: "tcs = concat (map fst outs)" and
    results: "results = concat (map (\<lambda>out. fst (snd out)) outs)" and
    evs: "evs = concat (map (\<lambda>out. snd (snd out)) outs)"
    by auto
  show thesis
    by (rule that [OF res sl outs]) (simp_all add: s' new_calls_def tcs results evs)
qed

lemma sel_no_invocation:
  "resolve_suggested env cfg s = Inr (suggested, sel) \<Longrightarrow> ToolInvoke name args \<notin> set sel"
  by (auto dest: resolve_suggested_sel)


lemma out_event_repo_path:
  "run_tool_spec env repo x = Inr out \<Longrightarrow> ToolInvoke name args \<in> set (snd (snd out)) \<Longrightarrow>
     \<exists>a. args = JDict a \<and> map_of a (u ''repo_path'') = Some (JStr repo)"
  by (auto dest!: run_tool_spec_cases dest: invoke_tool_events)

lemma out_success_repo_path:
  "run_tool_spec env repo x = Inr out \<Longrightarrow> tc \<in> set (fst out) \<Longrightarrow> success tc \<Longrightarrow>
     \<exists>a. arguments tc = JDict a \<and> map_of a (u ''repo_path'') = Some (JStr repo)"
  by (auto dest!: run_tool_spec_cases dest: invoke_tool_success)




lemma resolve_suggested_pending:
  "suggested_from_state env s = JList xs \<Longrightarrow> xs \<noteq> [] \<Longrightarrow>
   tool_execution_node env cfg s =
     (case run_tool_specs env (repo_path s) (slice_to xs (cfg_max_tool_calls_per_iteration cfg)) ([], [], []) of
        Inl e \<Rightarrow> Inl e
      | Inr (tcs, results, evs) \<Rightarrow>
          Inr (s\<lparr>exploration_history := exploration_history s @
                   [\<lparr>iteration = iteration_count s,
                     action = action_text env (length tcs),
                     findings = findings_text env (length (filter success tcs)),
                     tool_calls = tcs\<rparr>],
                 current_tool_results := join (newline @ newline) results,
                 status := u ''tools_executed'',
                 external_calls := external_calls s @ evs\<rparr>))"
  by (simp add: tool_execution_node_def resolve_suggested_list split: sum.splits prod.splits)

lemma run_tool_specs_skipped:
  "\<forall>x \<in> set specs. run_tool_spec env repo x = Inr ([], [], []) \<Longrightarrow>
     run_tool_specs env repo specs acc = Inr acc"
  by (induction specs arbitrary: acc) (auto split: prod.splits)

lemma set_slice_to: "set (slice_to xs n) \<subseteq> set xs"
  by (auto simp: slice_to_def dest: in_set_takeD)

lemma selection_iff_falsy:
  assumes "tool_execution_node env cfg s = Inr s'"
  shows "LLMCall SelectTools \<in> set (new_calls s s') \<longleftrightarrow> \<not> truthy (suggested_from_state env s)"
proof -
  from assms obtain suggested sel specs outs where
    res: "resolve_suggested env cfg s = Inr (suggested, sel)" and
    outs: "map (run_tool_spec env (repo_path s)) specs = map Inr outs" and
    new: "new_calls s s' = sel @ concat (map (\<lambda>out. snd (snd out)) outs)"
    by (rule tool_execution_node_outs)
  have "LLMCall SelectTools \<notin> set (snd (snd out))" if "out \<in> set outs" for out
  proof -
    from outs_member [OF outs that] obtain x where "run_tool_spec env (repo_path s) x = Inr out"
      by blast
    then show ?thesis
      by (auto dest!: run_tool_spec_cases dest: invoke_tool_events)
  qed
  then have "LLMCall SelectTools \<in> set (new_calls s s') \<longleftrightarrow> LLMCall SelectTools \<in> set sel"
    by (auto simp: new)
  with resolve_suggested_sel [OF res] show ?thesis by auto
qed














lemmas stub_eval =
  tool_execution_node_def resolve_suggested_def suggested_from_state_def select_tools_with_llm_def
  run_tool_spec_def invoke_tool_def dict_get_def dict_set_def slice_to_def
  stub_env_def stub_state_def stub_config_def stub_texts_def create_initial_state_def
  unregistered_call_def search_call_def injected_call_def failing_call_def
  unregistered_only_text_def unregistered_first_text_def injected_text_def failing_first_text_def
  two_searches_text_def three_searches_text_def dq_def TOOL_REGISTRY_def new_calls_def u_def Let_def



section \<open>The claims about dispatch\<close>

text \<open>
  C4, as amended. A proposal whose name is not in the registry is skipped: no call
  is recorded for it, no handler is invoked, and the batch goes on. It does use up a
  slot of the budget, though: the proposals are cut to the first
  \<open>max_tool_calls_per_iteration\<close> before the names are looked up, so the calls of a
  batch are exactly the registered proposals among those first ones.
\<close>

theorem unregistered_names_take_budget_slots:
  assumes "tool_execution_node env cfg s = Inr s'"
    and "suggested_from_state env s = JList xs" and "xs \<noteq> []"
  shows "map tool_name (tool_calls (last (exploration_history s'))) =
           List.map_filter registered_name (slice_to xs (cfg_max_tool_calls_per_iteration cfg)) \<and>
         length (handler_invocations (new_calls s s')) \<le>
           length (List.map_filter registered_name (slice_to xs (cfg_max_tool_calls_per_iteration cfg)))"
proof -
  from assms(1) obtain suggested sel specs outs where
    res: "resolve_suggested env cfg s = Inr (suggested, sel)" and
    sl: "slice_suggested suggested (cfg_max_tool_calls_per_iteration cfg) = Inr specs" and
    outs: "map (run_tool_spec env (repo_path s)) specs = map Inr outs" and
    calls: "tool_calls (last (exploration_history s')) = concat (map fst outs)" and
    new: "new_calls s s' = sel @ concat (map (\<lambda>out. snd (snd out)) outs)"
    by (rule tool_execution_node_outs)
  from res assms(2,3) have sug: "suggested = JList xs" "sel = []"
    by (simp_all add: resolve_suggested_list)
  with sl have specs: "specs = slice_to xs (cfg_max_tool_calls_per_iteration cfg)"
    by simp
  have names: "map tool_name (concat (map fst outs)) = List.map_filter registered_name specs"
    using outs by (rule outs_names)
  have "length (handler_invocations (new_calls s s')) \<le> length (concat (map (\<lambda>out. snd (snd out)) outs))"
    by (simp add: new sug handler_invocations_def)
  also have "\<dots> \<le> length (concat (map fst outs))"
    using outs
  proof (induction specs arbitrary: outs)
    case Nil
    then show ?case by simp
  next
    case (Cons x xs)
    from Cons.prems obtain out outs' where
      o: "outs = out # outs'" and x: "run_tool_spec env (repo_path s) x = Inr out" and
      rest: "map (run_tool_spec env (repo_path s)) xs = map Inr outs'"
      by (cases outs) auto
    from run_tool_spec_cases [OF x] show ?case
      using Cons.IH [OF rest] by (auto simp: o dest!: invoke_tool_events_length)
  qed
  also have "\<dots> = length (List.map_filter registered_name specs)"
    using names by (metis length_map)
  finally show ?thesis
    using names by (simp add: calls specs)
qed

text \<open>
  The theorem at a batch of an unregistered and a registered proposal with a budget
  of five: the registered one is executed.
\<close>

theorem unregistered_names_take_budget_slots_witness:
  "suggested_from_state (stub_env True (u ''{}'')) (stub_state 1 unregistered_first_text) =
     JList [unregistered_call, search_call ''TODO''] \<and>
   (\<exists>s'. tool_execution_node (stub_env True (u ''{}'')) (stub_config 10 5)
           (stub_state 1 unregistered_first_text) = Inr s' \<and>
         map tool_name (tool_calls (last (exploration_history s'))) = [u ''search_code''])"
proof -
  let ?s = "stub_state 1 unregistered_first_text"
  have sug: "suggested_from_state (stub_env True (u ''{}'')) ?s =
      JList [unregistered_call, search_call ''TODO'']"
    by (simp add: stub_eval)
  have ne: "[unregistered_call, search_call ''TODO''] \<noteq> []"
    by simp
  have "\<exists>s'. tool_execution_node (stub_env True (u ''{}'')) (stub_config 10 5) ?s = Inr s'"
    by (simp add: stub_eval)
  then obtain s' where h: "tool_execution_node (stub_env True (u ''{}'')) (stub_config 10 5) ?s = Inr s'"
    by blast
  have "List.map_filter registered_name
      (slice_to [unregistered_call, search_call ''TODO'']
         (cfg_max_tool_calls_per_iteration (stub_config 10 5))) = [u ''search_code'']"
    by (simp add: map_filter_simps registered_name_def stub_eval)
  with unregistered_names_take_budget_slots [OF h sug ne] sug h show ?thesis
    by auto
qed

text \<open>
  C4 as stated fails: with a budget of one call and the proposals
  \<open>[read_everything, search_code]\<close>, of which the second is registered, nothing is
  executed, because the unregistered name has taken the only slot.
\<close>

theorem unregistered_names_counterexample:
  "suggested_from_state (stub_env True (u ''{}'')) (stub_state 1 unregistered_first_text) =
     JList [unregistered_call, search_call ''TODO''] \<and>
   List.map_filter registered_name [unregistered_call, search_call ''TODO''] = [u ''search_code''] \<and>
   cfg_max_tool_calls_per_iteration (stub_config 10 1) = 1 \<and>
   \<not> isl (tool_execution_node (stub_env True (u ''{}'')) (stub_config 10 1)
            (stub_state 1 unregistered_first_text)) \<and>
   tool_calls (last (exploration_history
     (projr (tool_execution_node (stub_env True (u ''{}'')) (stub_config 10 1)
        (stub_state 1 unregistered_first_text))))) = [] \<and>
   new_calls (stub_state 1 unregistered_first_text)
     (projr (tool_execution_node (stub_env True (u ''{}'')) (stub_config 10 1)
        (stub_state 1 unregistered_first_text))) = []"
  by (simp add: map_filter_simps registered_name_def stub_eval)



text \<open>
  C5 as stated fails: nothing validates the configured bound, and with a bound of
  \<open>-1\<close> the slice \<open>suggested_tools[:-1]\<close> drops only the last proposal, so that of
  three proposals two are recorded and two handlers are invoked.
\<close>

theorem batch_is_bounded_counterexample:
  "cfg_max_tool_calls_per_iteration (stub_config 10 (- 1)) = - 1 \<and>
   suggested_from_state (stub_env True (u ''{}'')) (stub_state 1 three_searches_text) =
     JList [search_call ''a'', search_call ''b'', search_call ''c''] \<and>
   \<not> isl (tool_execution_node (stub_env True (u ''{}'')) (stub_config 10 (- 1))
            (stub_state 1 three_searches_text)) \<and>
   length (tool_calls (last (exploration_history
     (projr (tool_execution_node (stub_env True (u ''{}'')) (stub_config 10 (- 1))
        (stub_state 1 three_searches_text)))))) = 2 \<and>
   length (handler_invocations (new_calls (stub_state 1 three_searches_text)
     (projr (tool_execution_node (stub_env True (u ''{}'')) (stub_config 10 (- 1))
        (stub_state 1 three_searches_text))))) = 2 \<and>
   cfg_max_tool_calls_per_iteration (stub_config 10 (- 1)) <
     int (length (tool_calls (last (exploration_history
       (projr (tool_execution_node (stub_env True (u ''{}'')) (stub_config 10 (- 1))
          (stub_state 1 three_searches_text)))))))"
  by (simp add: stub_eval handler_invocations_def)

text \<open>
  C6, as amended. When the pending proposals are a non-empty list of capability
  calls whose names are all outside the registry, the dispatcher does not fall back:
  it makes no selection call and invokes no handler, records zero calls, leaves an
  empty evidence bundle and hands over to the next synthesis. The selection is made
  exactly when the proposals found in the state are empty (falsy).
\<close>

theorem unregistered_only_batch_has_no_fallback:
  assumes "suggested_from_state env s = JList xs" and "xs \<noteq> []"
    and "\<forall>x \<in> set xs. \<exists>spec tool. x = JDict spec \<and>
           dict_get spec (u ''tool'') (JStr []) = JStr tool \<and> tool \<notin> set TOOL_REGISTRY"
  shows "(\<exists>s'. tool_execution_node env cfg s = Inr s' \<and>
            tool_calls (last (exploration_history s')) = [] \<and>
            new_calls s s' = [] \<and>
            current_tool_results s' = [] \<and>
            next_node ExecuteTools s' = GenerateDoc) \<and>
         (\<forall>t t'. tool_execution_node env cfg t = Inr t' \<longrightarrow>
            (LLMCall SelectTools \<in> set (new_calls t t') \<longleftrightarrow> \<not> truthy (suggested_from_state env t)))"
proof -
  have "\<forall>x \<in> set (slice_to xs (cfg_max_tool_calls_per_iteration cfg)).
      run_tool_spec env (repo_path s) x = Inr ([], [], [])"
    using assms(3) set_slice_to [of xs "cfg_max_tool_calls_per_iteration cfg"]
    by (fastforce simp: run_tool_spec_def)
  then have "run_tool_specs env (repo_path s) (slice_to xs (cfg_max_tool_calls_per_iteration cfg))
      ([], [], []) = Inr ([], [], [])"
    by (rule run_tool_specs_skipped)
  then have "\<exists>s'. tool_execution_node env cfg s = Inr s' \<and>
            tool_calls (last (exploration_history s')) = [] \<and>
            new_calls s s' = [] \<and>
            current_tool_results s' = [] \<and>
            next_node ExecuteTools s' = GenerateDoc"
    by (simp add: resolve_suggested_pending [OF assms(1,2)] new_calls_def check_error_def)
  with selection_iff_falsy show ?thesis
    by blast
qed

text \<open>The theorem at a batch whose only proposal names \<open>read_everything\<close>.\<close>

theorem unregistered_only_batch_has_no_fallback_witness:
  "suggested_from_state (stub_env True (u ''{}'')) (stub_state 1 unregistered_only_text) =
     JList [unregistered_call] \<and>
   (\<exists>s'. tool_execution_node (stub_env True (u ''{}'')) (stub_config 10 5)
           (stub_state 1 unregistered_only_text) = Inr s' \<and>
         tool_calls (last (exploration_history s')) = [] \<and>
         new_calls (stub_state 1 unregistered_only_text) s' = [] \<and>
         LLMCall SelectTools \<notin> set (new_calls (stub_state 1 unregistered_only_text) s') \<and>
         truthy (suggested_from_state (stub_env True (u ''{}'')) (stub_state 1 unregistered_only_text)))"
proof -
  let ?e = "stub_env True (u ''{}'')"
  let ?s = "stub_state 1 unregistered_only_text"
  have sug: "suggested_from_state ?e ?s = JList [unregistered_call]"
    by (simp add: stub_eval)
  have ne: "[unregistered_call] \<noteq> []"
    by simp
  have unreg: "\<forall>x \<in> set [unregistered_call]. \<exists>spec tool. x = JDict spec \<and>
           dict_get spec (u ''tool'') (JStr []) = JStr tool \<and> tool \<notin> set TOOL_REGISTRY"
    by (simp add: unregistered_call_def dict_get_def TOOL_REGISTRY_def)
  from unregistered_only_batch_has_no_fallback [OF sug ne unreg, of "stub_config 10 5"] sug
  show ?thesis
    by fastforce
qed

text \<open>
  C6 as stated fails: the only proposal names a capability outside the registry,
  and the batch ends with zero calls and no selection call made.
\<close>

theorem unregistered_only_batch_counterexample:
  "suggested_from_state (stub_env True (u ''{}'')) (stub_state 1 unregistered_only_text) =
     JList [unregistered_call] \<and>
   registered_name unregistered_call = None \<and>
   \<not> isl (tool_execution_node (stub_env True (u ''{}'')) (stub_config 10 5)
            (stub_state 1 unregistered_only_text)) \<and>
   tool_calls (last (exploration_history
     (projr (tool_execution_node (stub_env True (u ''{}'')) (stub_config 10 5)
        (stub_state 1 unregistered_only_text))))) = [] \<and>
   new_calls (stub_state 1 unregistered_only_text)
     (projr (tool_execution_node (stub_env True (u ''{}'')) (stub_config 10 5)
        (stub_state 1 unregistered_only_text))) = []"
  by (simp add: registered_name_def stub_eval)

text \<open>
  C7. Every handler invocation of a batch carries an argument mapping whose
  \<open>repo_path\<close> is the run's repository path, whatever the proposal had under that
  key, and so does every call recorded as successful.
\<close>

theorem repo_path_is_supplied_by_the_engine:
  assumes "tool_execution_node env cfg s = Inr s'"
  shows "(\<forall>name args. ToolInvoke name args \<in> set (new_calls s s') \<longrightarrow>
            (\<exists>a. args = JDict a \<and> map_of a (u ''repo_path'') = Some (JStr (repo_path s)))) \<and>
         (\<forall>tc \<in> set (tool_calls (last (exploration_history s'))). success tc \<longrightarrow>
            (\<exists>a. arguments tc = JDict a \<and> map_of a (u ''repo_path'') = Some (JStr (repo_path s))))"
proof -
  from assms obtain suggested sel specs outs where
    res: "resolve_suggested env cfg s = Inr (suggested, sel)" and
    outs: "map (run_tool_spec env (repo_path s)) specs = map Inr outs" and
    calls: "tool_calls (last (exploration_history s')) = concat (map fst outs)" and
    new: "new_calls s s' = sel @ concat (map (\<lambda>out. snd (snd out)) outs)"
    by (rule tool_execution_node_outs)
  show ?thesis
  proof (intro conjI allI impI ballI)
    fix name args
    assume "ToolInvoke name args \<in> set (new_calls s s')"
    with new sel_no_invocation [OF res] obtain out where
      out: "out \<in> set outs" "ToolInvoke name args \<in> set (snd (snd out))"
      by auto
    from outs_member [OF outs out(1)] out(2)
    show "\<exists>a. args = JDict a \<and> map_of a (u ''repo_path'') = Some (JStr (repo_path s))"
      by (blast dest: out_event_repo_path)
  next
    fix tc
    assume "tc \<in> set (tool_calls (last (exploration_history s')))" and ok: "success tc"
    then obtain out where out: "out \<in> set outs" "tc \<in> set (fst out)"
      by (auto simp: calls)
    from outs_member [OF outs out(1)] out(2) ok
    show "\<exists>a. arguments tc = JDict a \<and> map_of a (u ''repo_path'') = Some (JStr (repo_path s))"
      by (blast dest: out_success_repo_path)
  qed
qed

text \<open>
  The theorem at a proposal whose arguments came with \<open>repo_path = /etc\<close>: the
  handler is invoked with \<open>/repo\<close>, the path of the run.
\<close>

theorem repo_path_is_supplied_by_the_engine_witness:
  "suggested_from_state (stub_env True (u ''{}'')) (stub_state 1 injected_text) = JList [injected_call] \<and>
   repo_path (stub_state 1 injected_text) = u ''/repo'' \<and>
   (\<exists>s'. tool_execution_node (stub_env True (u ''{}'')) (stub_config 10 5)
           (stub_state 1 injected_text) = Inr s' \<and>
         new_calls (stub_state 1 injected_text) s' =
           [ToolInvoke (u ''search_code'')
              (JDict [(u ''query'', JStr (u ''TODO'')), (u ''repo_path'', JStr (u ''/repo''))])] \<and>
         map arguments (tool_calls (last (exploration_history s'))) =
           [JDict [(u ''query'', JStr (u ''TODO'')), (u ''repo_path'', JStr (u ''/repo''))]] \<and>
         map success (tool_calls (last (exploration_history s'))) = [True] \<and>
         (\<exists>a. JDict [(u ''query'', JStr (u ''TODO'')), (u ''repo_path'', JStr (u ''/repo''))] = JDict a \<and>
              map_of a (u ''repo_path'') = Some (JStr (repo_path (stub_state 1 injected_text)))))"
proof -
  let ?e = "stub_env True (u ''{}'')"
  let ?s = "stub_state 1 injected_text"
  let ?args = "JDict [(u ''query'', JStr (u ''TODO'')), (u ''repo_path'', JStr (u ''/repo''))]"
  have sug: "suggested_from_state ?e ?s = JList [injected_call]"
    by (simp add: stub_eval)
  have repo: "repo_path ?s = u ''/repo''"
    by (simp add: stub_state_def create_initial_state_def)
  have "\<exists>s'. tool_execution_node ?e (stub_config 10 5) ?s = Inr s' \<and>
      new_calls ?s s' = [ToolInvoke (u ''search_code'') ?args] \<and>
      map arguments (tool_calls (last (exploration_history s'))) = [?args] \<and>
      map success (tool_calls (last (exploration_history s'))) = [True]"
    by (simp add: stub_eval)
  then obtain s' where h: "tool_execution_node ?e (stub_config 10 5) ?s = Inr s'"
    and ev: "new_calls ?s s' = [ToolInvoke (u ''search_code'') ?args]"
    and recorded: "map arguments (tool_calls (last (exploration_history s'))) = [?args]"
      "map success (tool_calls (last (exploration_history s'))) = [True]"
    by (elim exE conjE)
  from ev have "ToolInvoke (u ''search_code'') ?args \<in> set (new_calls ?s s')"
    by simp
  with repo_path_is_supplied_by_the_engine [OF h]
  have "\<exists>a. ?args = JDict a \<and> map_of a (u ''repo_path'') = Some (JStr (repo_path ?s))"
    by blast
  with sug repo h ev recorded show ?thesis
    by (intro conjI exI [of _ s']) simp_all
qed




section \<open>The claims about evaluation\<close>

lemma json_block_no_open: "lbrace \<notin> set content \<Longrightarrow> json_block content = None"
proof -
  assume "lbrace \<notin> set content"
  then have "dropWhile (\<lambda>c. c \<noteq> lbrace) content = []"
    by (auto simp: dropWhile_eq_Nil_conv)
  then show ?thesis by (simp add: json_block_def del: dropWhile_eq_Nil_conv)
qed

lemma json_block_Some_shape:
  assumes "json_block content = Some block"
  shows "\<exists>pre body post. content = pre @ block @ post \<and> block = lbrace # body @ [rbrace] \<and>
           lbrace \<notin> set pre \<and> rbrace \<notin> set post"
proof -
  let ?rest = "dropWhile (\<lambda>c. c \<noteq> lbrace) content"
  from assms obtain c body where rest: "?rest = c # body" and close: "rbrace \<in> set body"
    and block: "block = c # rev (dropWhile (\<lambda>c. c \<noteq> rbrace) (rev body))"
    by (auto simp: json_block_def split: list.splits if_splits)
  have c: "c = lbrace"
    using rest hd_dropWhile [of "\<lambda>c. c \<noteq> lbrace" content] by force
  have content: "content = takeWhile (\<lambda>c. c \<noteq> lbrace) content @ c # body"
    using rest takeWhile_dropWhile_id [of "\<lambda>c. c \<noteq> lbrace" content] by simp
  have pre: "lbrace \<notin> set (takeWhile (\<lambda>c. c \<noteq> lbrace) content)"
    by (auto dest: set_takeWhileD)
  let ?tail = "rev (takeWhile (\<lambda>c. c \<noteq> rbrace) (rev body))"
  let ?mid = "rev (dropWhile (\<lambda>c. c \<noteq> rbrace) (rev body))"
  have body: "body = ?mid @ ?tail"
    using takeWhile_dropWhile_id [of "\<lambda>c. c \<noteq> rbrace" "rev body"]
    by (metis rev_append rev_rev_ident)
  have post: "rbrace \<notin> set ?tail"
    by (auto dest: set_takeWhileD)
  from close have "dropWhile (\<lambda>c. c \<noteq> rbrace) (rev body) \<noteq> []"
    by (auto simp: dropWhile_eq_Nil_conv)
  then obtain d ds where d: "dropWhile (\<lambda>c. c \<noteq> rbrace) (rev body) = d # ds"
    by (cases "dropWhile (\<lambda>c. c \<noteq> rbrace) (rev body)") auto
  then have "d = rbrace"
    using hd_dropWhile [of "\<lambda>c. c \<noteq> rbrace" "rev body"] by force
  with d have mid: "?mid = rev ds @ [rbrace]" by simp
  have "content = takeWhile (\<lambda>c. c \<noteq> lbrace) content @ block @ ?tail"
    using content body by (simp add: block)
  moreover have "block = lbrace # rev ds @ [rbrace]"
    using mid by (simp add: block c)
  ultimately show ?thesis
    using pre post by blast
qed

lemma json_block_found: "rbrace \<in> set rest \<Longrightarrow> json_block (pre @ lbrace # rest) \<noteq> None"
  by (induction pre) (auto simp: json_block_def)

text \<open>
  The definition of \<open>json_block\<close> against the pattern: there is no block exactly when
  the text has no opening brace with a closing brace somewhere after it.
\<close>

lemma json_block_None_iff:
  "json_block content = None \<longleftrightarrow>
     \<not> (\<exists>pre body post. content = pre @ lbrace # body @ rbrace # post)"
proof
  assume none: "json_block content = None"
  show "\<not> (\<exists>pre body post. content = pre @ lbrace # body @ rbrace # post)"
  proof
    assume "\<exists>pre body post. content = pre @ lbrace # body @ rbrace # post"
    then obtain pre body post where "content = pre @ lbrace # body @ rbrace # post"
      by blast
    with json_block_found [of "body @ rbrace # post" pre] none show False
      by simp
  qed
next
  assume no: "\<not> (\<exists>pre body post. content = pre @ lbrace # body @ rbrace # post)"
  show "json_block content = None"
  proof (cases "json_block content")
    case None
    then show ?thesis .
  next
    case (Some block)
    from json_block_Some_shape [OF Some] obtain pre body post where
      "content = pre @ block @ post" "block = lbrace # body @ [rbrace]"
      by blast
    then have "content = pre @ lbrace # body @ rbrace # post"
      by simp
    with no show ?thesis by blast
  qed
qed

text \<open>
  C3, as amended. When the evaluator's reply holds no brace-delimited block at all,
  the evaluation yields the fallback verdict, which depends on the iteration count
  alone: completeness is the truth value of \<open>iteration >= 3\<close>, confidence is 0.7,
  no aspect is missing and no capability call is proposed; any two such replies, in
  any two runs, give the same verdict at the same iteration count.
\<close>

theorem fallback_verdict_without_block:
  assumes "llm_invoke env Evaluate s = Some content" and "json_block content = None"
  shows "evaluate_completeness env s iter =
           Inr (JBool (3 \<le> iter), JFloat (7 / 10), JList [], JList []) \<and>
         (\<forall>env' s' content'. llm_invoke env' Evaluate s' = Some content' \<and> json_block content' = None \<longrightarrow>
            evaluate_completeness env' s' iter = evaluate_completeness env s iter)"
  using assms by (simp add: evaluate_completeness_def parse_evaluation_def dict_get_def)

text \<open>
  The theorem at a reply in prose, on iteration 2 and on iteration 3: the verdict is
  incomplete on the one and complete on the other.
\<close>

theorem fallback_verdict_without_block_witness:
  "llm_invoke (stub_env True (u ''Looks incomplete.'')) Evaluate (stub_state 2 []) =
     Some (u ''Looks incomplete.'') \<and>
   json_block (u ''Looks incomplete.'') = None \<and>
   evaluate_completeness (stub_env True (u ''Looks incomplete.'')) (stub_state 2 []) 2 =
     Inr (JBool False, JFloat (7 / 10), JList [], JList []) \<and>
   evaluate_completeness (stub_env True (u ''Looks incomplete.'')) (stub_state 2 []) 3 =
     Inr (JBool True, JFloat (7 / 10), JList [], JList [])"
proof -
  have reply: "llm_invoke (stub_env True (u ''Looks incomplete.'')) Evaluate (stub_state 2 []) =
      Some (u ''Looks incomplete.'')"
    by (simp add: stub_env_def)
  have none: "json_block (u ''Looks incomplete.'') = None"
    by (rule json_block_no_open) (simp add: u_def lbrace_def)
  from fallback_verdict_without_block [OF reply none, of 2]
    fallback_verdict_without_block [OF reply none, of 3] reply none
  show ?thesis by simp
qed

text \<open>
  C3 as stated fails: the reply \<open>{broken}\<close> holds no parseable block either, and on
  iteration 5 its verdict is incomplete, with confidence 0.5 and one missing aspect.
\<close>

theorem fallback_verdict_counterexample:
  "llm_invoke (stub_env True (u ''{broken}'')) Evaluate (stub_state 5 []) = Some (u ''{broken}'') \<and>
   json_block (u ''{broken}'') = Some (u ''{broken}'') \<and>
   json_loads (stub_env True (u ''{broken}'')) (u ''{broken}'') = None \<and>
   evaluate_completeness (stub_env True (u ''{broken}'')) (stub_state 5 []) 5 =
     Inr (JBool False, JFloat (1 / 2), JList [JStr unable_to_assess], JList []) \<and>
   evaluate_completeness (stub_env True (u ''{broken}'')) (stub_state 5 []) 5 \<noteq>
     Inr (JBool (3 \<le> (5::int)), JFloat (7 / 10), JList [], JList [])"
proof -
  have block: "json_block (u ''{broken}'') = Some (u ''{broken}'')"
    by (simp add: json_block_def u_def lbrace_def rbrace_def)
  have loads: "json_loads (stub_env True (u ''{broken}'')) (u ''{broken}'') = None"
    by (simp add: stub_eval)
  have reply: "llm_invoke (stub_env True (u ''{broken}'')) Evaluate (stub_state 5 []) = Some (u ''{broken}'')"
    by (simp add: stub_env_def)
  show ?thesis
    by (simp add: evaluate_completeness_def parse_evaluation_def block loads reply)
qed

text \<open>
  C10. When a brace-delimited block is found, the verdict does not depend on the
  iteration count, so the forced completion from iteration 3 on belongs to replies
  without a block only. When the block found fails to decode, the verdict is
  incomplete, with confidence 0.5 and the one sentinel entry as missing part, at
  every iteration count; and the evaluation step under the cap then leaves the run
  incomplete and on its way to dispatch.
\<close>

theorem broken_block_never_forces_completion:
  assumes "json_block content = Some block"
  shows "(\<forall>i j. parse_evaluation env content i = parse_evaluation env content j) \<and>
         (json_loads env block = None \<longrightarrow>
            parse_evaluation env content iter =
              Inr (JBool False, JFloat (1 / 2), JList [JStr unable_to_assess], JList []) \<and>
            (llm_invoke env Evaluate s = Some content \<and> iteration_count s < max_iterations s \<longrightarrow>
               (\<exists>s'. check_completeness_node env cfg s = Inr s' \<and>
                  is_complete s' = JBool False \<and>
                  confidence_score s' = JFloat (1 / 2) \<and>
                  missing_parts s' = JList [JStr unable_to_assess] \<and>
                  status s' = u ''needs_exploration'' \<and>
                  next_node CheckCompleteness s' = ExecuteTools)))"
  using assms
  by (simp add: parse_evaluation_def check_completeness_node_def evaluate_completeness_def
      route_after_check_def)

text \<open>
  The theorem at the reply \<open>{broken}\<close> on iteration 5 of 10: the verdict is the
  conservative one and the run goes on to dispatch.
\<close>

theorem broken_block_never_forces_completion_witness:
  "json_block (u ''{broken}'') = Some (u ''{broken}'') \<and>
   json_loads (stub_env True (u ''{broken}'')) (u ''{broken}'') = None \<and>
   llm_invoke (stub_env True (u ''{broken}'')) Evaluate (stub_state 5 []) = Some (u ''{broken}'') \<and>
   iteration_count (stub_state 5 []) < max_iterations (stub_state 5 []) \<and>
   parse_evaluation (stub_env True (u ''{broken}'')) (u ''{broken}'') 5 =
     Inr (JBool False, JFloat (1 / 2), JList [JStr unable_to_assess], JList []) \<and>
   parse_evaluation (stub_env True (u ''{broken}'')) (u ''{broken}'') 2 =
     parse_evaluation (stub_env True (u ''{broken}'')) (u ''{broken}'') 7 \<and>
   (\<exists>s'. check_completeness_node (stub_env True (u ''{broken}'')) (stub_config 10 5) (stub_state 5 []) = Inr s' \<and>
         is_complete s' = JBool False \<and> next_node CheckCompleteness s' = ExecuteTools)"
proof -
  have block: "json_block (u ''{broken}'') = Some (u ''{broken}'')"
    by (simp add: json_block_def u_def lbrace_def rbrace_def)
  have loads: "json_loads (stub_env True (u ''{broken}'')) (u ''{broken}'') = None"
    by (simp add: stub_eval)
  have reply: "llm_invoke (stub_env True (u ''{broken}'')) Evaluate (stub_state 5 []) = Some (u ''{broken}'')"
    by (simp add: stub_env_def)
  have under: "iteration_count (stub_state 5 []) < max_iterations (stub_state 5 [])"
    by (simp add: stub_state_def create_initial_state_def)
  note c10 = broken_block_never_forces_completion [OF block,
      of "stub_env True (u ''{broken}'')" 5 "stub_state 5 []" "stub_config 10 5"]
  from c10 loads have "parse_evaluation (stub_env True (u ''{broken}'')) (u ''{broken}'') 5 =
      Inr (JBool False, JFloat (1 / 2), JList [JStr unable_to_assess], JList [])"
    by blast
  moreover from c10 have "parse_evaluation (stub_env True (u ''{broken}'')) (u ''{broken}'') 2 =
      parse_evaluation (stub_env True (u ''{broken}'')) (u ''{broken}'') 7"
    by blast
  moreover from c10 loads reply under
  have "\<exists>s'. check_completeness_node (stub_env True (u ''{broken}'')) (stub_config 10 5) (stub_state 5 []) = Inr s' \<and>
         is_complete s' = JBool False \<and> next_node CheckCompleteness s' = ExecuteTools"
    by blast
  ultimately show ?thesis
    using block loads reply under by (intro conjI)
qed

section \<open>Facts about the nodes and the graph\<close>

lemma init_node_frame:
  "init_node env cfg s = Inr s' \<Longrightarrow>
     iteration_count s' = iteration_count s \<and> max_iterations s' = max_iterations s \<and>
     document_versions s' = document_versions s \<and> external_calls s' = external_calls s"
  by (auto simp: init_node_def Let_def split: if_splits)

lemma generate_doc_node_frame:
  "generate_doc_node env cfg s = Inr s' \<Longrightarrow>
     iteration_count s' = iteration_count s + 1 \<and> max_iterations s' = max_iterations s \<and>
     document_versions s' = document_versions s @ [current_document s'] \<and>
     synthesis_calls s' = Suc (synthesis_calls s) \<and>
     status s' = u ''doc_generated''"
  by (auto simp: generate_doc_node_def synthesis_calls_def split: sum.splits)

lemma check_completeness_node_frame:
  "check_completeness_node env cfg s = Inr s' \<Longrightarrow>
     iteration_count s' = iteration_count s \<and> max_iterations s' = max_iterations s \<and>
     document_versions s' = document_versions s \<and> synthesis_calls s' = synthesis_calls s \<and>
     (status s' = u ''completed'' \<or> status s' = u ''needs_exploration'')"
  by (auto simp: check_completeness_node_def synthesis_calls_def Let_def
      split: if_splits sum.splits option.splits prod.splits)

lemma run_tool_specs_events:
  assumes "run_tool_specs env repo specs ([], [], []) = Inr (tcs, results, evs)"
    and "ev \<in> set evs"
  shows "\<exists>name args. ev = ToolInvoke name args"
proof -
  from run_tool_specs_outs [OF assms(1)] obtain outs where
    outs: "map (run_tool_spec env repo) specs = map Inr outs" and
    evs: "evs = concat (map (\<lambda>out. snd (snd out)) outs)"
    by auto
  from assms(2) evs obtain out where out: "out \<in> set outs" "ev \<in> set (snd (snd out))"
    by auto
  from outs_member [OF outs out(1)] obtain x where "run_tool_spec env repo x = Inr out"
    by blast
  with out(2) show ?thesis
    by (auto dest!: run_tool_spec_cases dest: invoke_tool_events)
qed

lemma tool_execution_node_frame:
  assumes "tool_execution_node env cfg s = Inr s'"
  shows "iteration_count s' = iteration_count s \<and> max_iterations s' = max_iterations s \<and>
     document_versions s' = document_versions s \<and> synthesis_calls s' = synthesis_calls s \<and>
     status s' = u ''tools_executed''"
proof -
  from assms obtain suggested sel specs tcs results evs where
    res: "resolve_suggested env cfg s = Inr (suggested, sel)" and
    run: "run_tool_specs env (repo_path s) specs ([], [], []) = Inr (tcs, results, evs)" and
    s': "s' = s\<lparr>exploration_history := exploration_history s @
               [\<lparr>iteration = iteration_count s,
                 action = action_text env (length tcs),
                 findings = findings_text env (length (filter success tcs)),
                 tool_calls = tcs\<rparr>],
             current_tool_results := join (newline @ newline) results,
             status := u ''tools_executed'',
             external_calls := external_calls s @ sel @ evs\<rparr>"
    by (rule tool_execution_node_Inr)
  have "filter (\<lambda>e. e = LLMCall InitialDoc \<or> e = LLMCall UpdateDoc) sel = []"
    using resolve_suggested_sel [OF res] by auto
  moreover have "filter (\<lambda>e. e = LLMCall InitialDoc \<or> e = LLMCall UpdateDoc) evs = []"
    using run_tool_specs_events [OF run] by (auto simp: filter_empty_conv)
  ultimately show ?thesis
    by (simp add: s' synthesis_calls_def)
qed

lemma save_output_node_frame:
  "save_output_node env cfg s = Inr s' \<Longrightarrow>
     iteration_count s' = iteration_count s \<and> max_iterations s' = max_iterations s \<and>
     document_versions s' = document_versions s \<and> external_calls s' = external_calls s \<and>
     (status s' = u ''completed'' \<or> status s' = u ''error'')"
  by (auto simp: save_output_node_def split: if_splits option.splits)

lemma node_function_frame:
  assumes "node_function n env cfg s = Inr s'"
  shows "max_iterations s' = max_iterations s \<and>
     (if n = GenerateDoc
      then iteration_count s' = iteration_count s + 1 \<and>
           document_versions s' = document_versions s @ [current_document s'] \<and>
           synthesis_calls s' = Suc (synthesis_calls s)
      else iteration_count s' = iteration_count s \<and>
           document_versions s' = document_versions s \<and>
           synthesis_calls s' = synthesis_calls s)"
proof (cases n)
  case Init
  with assms init_node_frame [of env cfg s s'] show ?thesis
    by (simp add: synthesis_calls_def)
next
  case GenerateDoc
  with assms generate_doc_node_frame [of env cfg s s'] show ?thesis by simp
next
  case CheckCompleteness
  with assms check_completeness_node_frame [of env cfg s s'] show ?thesis by simp
next
  case ExecuteTools
  with assms tool_execution_node_frame [of env cfg s s'] show ?thesis by simp
next
  case SaveOutput
  with assms save_output_node_frame [of env cfg s s'] show ?thesis
    by (simp add: synthesis_calls_def)
next
  case END
  with assms show ?thesis by simp
qed

lemma step_Inr:
  "step env cfg c = Inr c' \<longleftrightarrow>
     (\<exists>s'. node_function (fst c) env cfg (snd c) = Inr s' \<and> c' = (next_node (fst c) s', s'))"
  by (auto simp: step_def split: sum.splits)

lemma step_counts_agree:
  assumes "step env cfg c = Inr c'" and "counts_agree (snd c)"
  shows "counts_agree (snd c')"
proof -
  from assms(1) obtain s' where s': "node_function (fst c) env cfg (snd c) = Inr s'" "snd c' = s'"
    by (auto simp: step_Inr)
  from node_function_frame [OF s'(1)] assms(2) show ?thesis
    by (auto simp: counts_agree_def s'(2) split: if_splits)
qed

lemma step_max_iterations:
  "step env cfg c = Inr c' \<Longrightarrow> max_iterations (snd c') = max_iterations (snd c)"
  by (auto simp: step_Inr dest: node_function_frame)

lemma reachable_counts_agree:
  assumes "reachable env cfg c0 c" and "counts_agree (snd c0)"
  shows "counts_agree (snd c)"
  using assms by (induction rule: reachable.induct) (auto intro: step_counts_agree)

lemma reachable_max_iterations:
  "reachable env cfg c0 c \<Longrightarrow> max_iterations (snd c) = max_iterations (snd c0)"
  by (induction rule: reachable.induct) (auto dest: step_max_iterations)











lemma initial_configuration_invariants:
  "counts_agree (snd (initial_configuration cfg repo cpath))"
  "1 \<le> cfg_max_iterations cfg \<Longrightarrow> within_cap (initial_configuration cfg repo cpath)"
  "ends_at_cap (initial_configuration cfg repo cpath)"
  "max_iterations (snd (initial_configuration cfg repo cpath)) = cfg_max_iterations cfg"
  "repo_path (snd (initial_configuration cfg repo cpath)) = repo"
  "fst (initial_configuration cfg repo cpath) = Init"
  by (simp_all add: initial_configuration_def counts_agree_def synthesis_calls_def within_cap_def
      ends_at_cap_def create_initial_state_def)

section \<open>The claims about a run\<close>

text \<open>
  C9. When the repository root does not exist, the first step of the run leads to
  the graph's end: the run returns with status \<open>error\<close> and a description naming the
  path, its iteration count is zero, no version was produced, and no call to the
  oracle or to a handler was made.
\<close>

theorem missing_repository_ends_in_error:
  assumes "\<not> path_exists env repo"
  shows "\<exists>s. run env cfg repo cpath = Inr s \<and>
           step env cfg (initial_configuration cfg repo cpath) = Inr (END, s) \<and>
           status s = u ''error'' \<and>
           error s = Some (repo_missing_text @ repo) \<and>
           iteration_count s = 0 \<and>
           document_versions s = [] \<and>
           external_calls s = []"
proof -
  let ?start = "create_initial_state repo cpath (cfg_max_iterations cfg)"
  let ?final = "?start\<lparr>status := u ''error'', error := Some (repo_missing_text @ repo)\<rparr>"
  have init: "init_node env cfg ?start = Inr ?final"
    using assms by (simp add: init_node_def create_initial_state_def)
  have st: "step env cfg (Init, ?start) = Inr (END, ?final)"
    by (simp add: step_def init check_error_def)
  have "invoke_graph env cfg (Init, ?start) = invoke_graph env cfg (END, ?final)"
    by (subst invoke_graph.simps) (simp add: st)
  also have "\<dots> = Inr ?final"
    by (simp add: invoke_graph.simps)
  finally have "run env cfg repo cpath = Inr ?final"
    by (simp add: run_def initial_configuration_def)
  with st show ?thesis
    by (simp add: initial_configuration_def create_initial_state_def)
qed

text \<open>The theorem at a stub whose repository does not exist.\<close>

theorem missing_repository_ends_in_error_witness:
  "\<not> path_exists (stub_env False (u ''{}'')) (u ''/nowhere'') \<and>
   (\<exists>s. run (stub_env False (u ''{}'')) (stub_config 10 5) (u ''/nowhere'') None = Inr s \<and>
        status s = u ''error'' \<and>
        error s = Some (repo_missing_text @ u ''/nowhere'') \<and>
        iteration_count s = 0 \<and>
        external_calls s = [])"
proof -
  have missing: "\<not> path_exists (stub_env False (u ''{}'')) (u ''/nowhere'')"
    by (simp add: stub_env_def)
  from missing_repository_ends_in_error [OF missing, of "stub_config 10 5" None] missing
  show ?thesis by blast
qed

text \<open>
  C2. At every observation point of a run the number of versions kept equals the
  iteration count, and so does the number of synthesis calls made: both are zero in
  the initial state, the synthesis step appends exactly one version and adds exactly
  one to the count, and no other node changes either.
\<close>

theorem versions_match_iteration_count:
  "(\<forall>n s. reachable env cfg (initial_configuration cfg repo cpath) (n, s) \<longrightarrow>
       int (length (document_versions s)) = iteration_count s \<and>
       int (synthesis_calls s) = iteration_count s) \<and>
   (\<forall>s s'. generate_doc_node env cfg s = Inr s' \<longrightarrow>
       document_versions s' = document_versions s @ [current_document s'] \<and>
       iteration_count s' = iteration_count s + 1) \<and>
   (\<forall>n s s'. n \<noteq> GenerateDoc \<and> node_function n env cfg s = Inr s' \<longrightarrow>
       document_versions s' = document_versions s \<and> iteration_count s' = iteration_count s) \<and>
   document_versions (create_initial_state repo cpath (cfg_max_iterations cfg)) = [] \<and>
   iteration_count (create_initial_state repo cpath (cfg_max_iterations cfg)) = 0"
proof (intro conjI allI impI)
  fix n s
  assume "reachable env cfg (initial_configuration cfg repo cpath) (n, s)"
  then have "counts_agree (snd (n, s))"
    using initial_configuration_invariants(1) by (rule reachable_counts_agree)
  then show "int (length (document_versions s)) = iteration_count s"
    and "int (synthesis_calls s) = iteration_count s"
    by (simp_all add: counts_agree_def)
next
  fix s s'
  assume "generate_doc_node env cfg s = Inr s'"
  from generate_doc_node_frame [OF this]
  show "document_versions s' = document_versions s @ [current_document s']"
    and "iteration_count s' = iteration_count s + 1"
    by simp_all
next
  fix n s s'
  assume "n \<noteq> GenerateDoc \<and> node_function n env cfg s = Inr s'"
  then have n: "n \<noteq> GenerateDoc" and s': "node_function n env cfg s = Inr s'"
    by simp_all
  from node_function_frame [OF s'] n
  show "document_versions s' = document_versions s"
    and "iteration_count s' = iteration_count s"
    by simp_all
qed (simp_all add: create_initial_state_def)

lemmas run_eval =
  run_def initial_configuration_def invoke_graph.simps step_def init_node_def
  generate_doc_node_def generate_initial_doc_def update_document_def iterate_missing_parts_def
  check_completeness_node_def evaluate_completeness_def parse_evaluation_def json_block_def
  lbrace_def rbrace_def save_output_node_def generate_report_def check_error_def
  route_after_check_def synthesis_calls_def default_tools_def

text \<open>
  The theorem at the stub, after initialisation and the first synthesis: one version
  and an iteration count of one.
\<close>

theorem versions_match_iteration_count_witness:
  "\<exists>s. reachable (stub_env True (u ''{}'')) (stub_config 10 5)
          (initial_configuration (stub_config 10 5) (u ''/repo'') None) (CheckCompleteness, s) \<and>
        iteration_count s = 1 \<and>
        int (length (document_versions s)) = iteration_count s \<and>
        int (synthesis_calls s) = iteration_count s \<and>
        (\<exists>s0. generate_doc_node (stub_env True (u ''{}'')) (stub_config 10 5) s0 = Inr s \<and>
              document_versions s = document_versions s0 @ [current_document s] \<and>
              iteration_count s = iteration_count s0 + 1 \<and>
              GenerateDoc \<noteq> CheckCompleteness \<and>
              (\<exists>s'. node_function CheckCompleteness (stub_env True (u ''{}'')) (stub_config 10 5) s = Inr s' \<and>
                    document_versions s' = document_versions s \<and>
                    iteration_count s' = iteration_count s))"
proof -
  let ?e = "stub_env True (u ''{}'')"
  let ?c = "stub_config 10 5"
  let ?start = "initial_configuration ?c (u ''/repo'') None"
  have "\<exists>s1 s2. step ?e ?c ?start = Inr (GenerateDoc, s1) \<and>
      step ?e ?c (GenerateDoc, s1) = Inr (CheckCompleteness, s2) \<and> iteration_count s2 = 1"
    by (simp add: run_eval stub_eval)
  then obtain s1 s2 where
    st1: "step ?e ?c ?start = Inr (GenerateDoc, s1)" and
    st2: "step ?e ?c (GenerateDoc, s1) = Inr (CheckCompleteness, s2)" and
    one: "iteration_count s2 = 1"
    by (elim exE conjE)
  have "reachable ?e ?c ?start ?start"
    by (rule reachable_start)
  then have "reachable ?e ?c ?start (GenerateDoc, s1)"
  proof (rule reachable_step)
    show "fst ?start \<noteq> END"
      by (simp add: initial_configuration_def)
    show "step ?e ?c ?start = Inr (GenerateDoc, s1)"
      by (rule st1)
  qed
  then have r: "reachable ?e ?c ?start (CheckCompleteness, s2)"
    by (rule reachable_step) (simp_all add: st2)
  note c2 = versions_match_iteration_count [of ?e ?c "u ''/repo''" None]
  from c2 r
  have counts: "int (length (document_versions s2)) = iteration_count s2 \<and>
      int (synthesis_calls s2) = iteration_count s2"
    by blast
  from st2 have gen: "generate_doc_node ?e ?c s1 = Inr s2"
    by (auto simp: step_Inr)
  with c2 have grown: "document_versions s2 = document_versions s1 @ [current_document s2] \<and>
      iteration_count s2 = iteration_count s1 + 1"
    by blast
  have "iteration_count s2 < max_iterations s2"
    using reachable_max_iterations [OF r] one
    by (simp add: initial_configuration_def create_initial_state_def stub_config_def)
  then have "\<exists>s'. node_function CheckCompleteness ?e ?c s2 = Inr s'"
    by (simp add: check_completeness_node_def evaluate_completeness_def parse_evaluation_def
        json_block_def lbrace_def rbrace_def dict_get_def stub_env_def stub_texts_def u_def)
  then obtain s' where chk: "node_function CheckCompleteness ?e ?c s2 = Inr s'"
    by blast
  with c2 have kept: "document_versions s' = document_versions s2 \<and>
      iteration_count s' = iteration_count s2"
    by blast
  from r one counts gen grown chk kept show ?thesis
    by (intro exI [of _ s2] conjI exI [of _ s1] exI [of _ s']) simp_all
qed




end
